theory Spec2Isabelle
  imports Complex_Main
begin

unbundle bit_operations_syntax

section \<open>Leaflet.FreeDraw 0.1.14: the data the editor works on\<close>

text \<open>
  The editor (\<open>L.FreeDraw\<close>) is a JavaScript object whose methods mutate its own fields, the
  Leaflet map it is attached to, and the polygon and marker objects it creates. The model
  passes the whole of that state explicitly. Objects that are shared by reference (the edge
  markers in \<open>this.edges\<close>, the polygons they point to) live in stores indexed by an
  address; Leaflet stamps every object from one global counter, and the model allocates
  addresses from the same counter \<open>lastId\<close>, so that a polygon's address is also its
  \<open>_leaflet_id\<close>.

  Geo-coordinates (\<open>L.LatLng\<close>) are an abstract type \<open>'g\<close>: the editor never computes with
  them. Pixel points are pairs of integers.
\<close>

type_synonym point = "int \<times> int"

text \<open>A thrown value: the string of \<open>throwException\<close>, or the engine's own TypeError
  (a property read from \<open>null\<close> or \<open>undefined\<close>).\<close>

datatype error = Exception string | TypeError

text \<open>A call either returns a value or throws; both leave the state as mutated so far.\<close>

datatype ('r, 's) outcome = Return 'r 's | Throw error 's

text \<open>The values a method without a \<open>return\<close> statement, or a boolean one, can hand back.\<close>

datatype jsval = Undefined | Boolean bool

text \<open>An edge handle: the \<open>L.marker\<close> that \<open>attachEdges\<close> creates, with the fields it adds.
  \<open>e_icon_removals\<close> counts the calls of \<open>edge._icon.remove()\<close>.\<close>

record 'g edge =
  e_latlng :: 'g
  e_polygon :: nat
  e_polygonId :: nat
  e_index :: nat
  e_length :: nat
  e_icon_removals :: nat

text \<open>A polygon: \<open>_latlngs\<close>, the rendered ring \<open>_parts[0]\<close> (\<open>None\<close> when it is
  \<open>undefined\<close>: Leaflet keeps no ring of which clipping leaves nothing), and counters for
  the calls of \<open>_container.remove()\<close> and the redraws; \<open>p_onclick\<close> tells whether the
  click handler of \<open>_createMouseUp\<close> is registered.\<close>

record 'g polygon =
  p_latlngs :: "'g list"
  p_parts :: "point list option"
  p_container_removals :: nat
  p_redraws :: nat
  p_onclick :: bool

text \<open>The part of \<open>L.Map\<close> the editor touches: the four interaction handlers (True when
  enabled), the class list of the container, and the addresses of the layers on the map.\<close>

record lmap =
  dragging :: bool
  touchZoom :: bool
  doubleClickZoom :: bool
  scrollWheelZoom :: bool
  classList :: "string set"
  layers :: "nat set"

text \<open>The methods of \<open>L.FreeDraw.Hull\<close>, which are the values of \<open>hullAlgorithms\<close>.\<close>

datatype hull_method = Brian3kbGrahamScan | WildhoneyConcaveHull

text \<open>\<open>L.FreeDraw.Options\<close>, without the class names and the smooth factor, which only
  style what Leaflet draws. \<open>hullAlgorithm\<close> is \<open>None\<close> for \<open>false\<close> and \<open>undefined\<close>.\<close>

record options =
  multiplePolygons :: bool
  hullAlgorithm :: "hull_method option"
  boundariesAfterEdit :: bool
  createExitMode :: bool

text \<open>A layer group of markers: its address and, for each marker, its position and the
  icon option it was created with.\<close>

record 'g layerGroup =
  lg_id :: nat
  lg_markers :: "('g \<times> string option) list"

text \<open>
  The editor. \<open>map_obj\<close> is \<open>this.map\<close> (\<open>None\<close> for \<open>null\<close>, before \<open>onAdd\<close>);
  \<open>edges\<close> holds the addresses of the live edge markers, in array order, and \<open>markers\<close>
  and \<open>polygons\<close> are the stores. \<open>svg\<close> holds the segments of the tracer, and is
  \<open>None\<close> while it is the empty object, before \<open>onAdd\<close> has called \<open>createD3\<close>.
  \<open>markersFn_calls\<close> records, in order, the first argument of every call of
  \<open>options.markersFn\<close>: the callback belongs to the user (its default does nothing), and
  what it does with the \<open>setMarkers\<close> function it is handed is \<open>setMarkers\<close> below.
\<close>

record 'g freedraw =
  map_obj :: "lmap option"
  svg :: "(point \<times> point) list option"
  creating :: bool
  latLngs :: "'g list"
  options :: options
  markerLayer :: "'g layerGroup"
  edges :: "nat list"
  mode :: nat
  movingEdge :: "nat option"
  boundaryUpdateRequired :: bool
  markers :: "nat \<Rightarrow> 'g edge"
  polygons :: "nat \<Rightarrow> 'g polygon"
  lastId :: nat
  markersFn_calls :: "'g list list list"

text \<open>
  What the editor asks of Leaflet and of the two hull libraries, none of which is part of
  this file: the three projections of the map; the \<open>_latlngs\<close> that the constructor
  \<open>L.polygon(latLngs, ...)\<close> makes of its argument; the ring \<open>_parts[0]\<close> that Leaflet
  computes from the \<open>_latlngs\<close> of a polygon on the map (projected, clipped and simplified;
  \<open>None\<close> when there is none); \<open>ConvexHullGrahamScan\<close> (\<open>addPoint\<close> for every point,
  then \<open>getHull\<close>) and \<open>new ConcaveHull(latLngs).getLatLngs()\<close>.
\<close>

record 'g leaflet =
  containerPointToLatLng :: "point \<Rightarrow> 'g"
  layerPointToLatLng :: "point \<Rightarrow> 'g"
  latLngToContainerPoint :: "'g \<Rightarrow> point"
  polygonLatLngs :: "'g list \<Rightarrow> 'g list"
  render :: "'g list \<Rightarrow> point list option"
  getHull :: "point list \<Rightarrow> point list"
  getLatLngs :: "'g list \<Rightarrow> 'g list"

section \<open>Modes\<close>

text \<open>A mode is a number that is used as a bit mask; the model takes the natural numbers,
  on which \<open>&\<close> and \<open>^\<close> are \<open>AND\<close> and \<open>XOR\<close>.\<close>

definition MODES_VIEW :: nat where "MODES_VIEW = 1"
definition MODES_CREATE :: nat where "MODES_CREATE = 2"
definition MODES_EDIT :: nat where "MODES_EDIT = 4"
definition MODES_DELETE :: nat where "MODES_DELETE = 8"
definition MODES_ALL :: nat where "MODES_ALL = 1 OR 2 OR 4 OR 8"

section \<open>notifyBoundaries\<close>

text \<open>
  \<open>latLngs[index] = []\<close> and \<open>latLngs[index].push(v)\<close> on a JavaScript array. Writing at
  \<open>index = length\<close> appends. An index beyond the length would leave holes and a negative
  one would set a property that is no element; the loop below reaches neither
  (\<open>notify_loop_index\<close>), and \<open>array_set\<close> returns the array as it is there.
\<close>

definition array_defined :: "'a list \<Rightarrow> int \<Rightarrow> bool" where
  "array_defined xs i = (0 \<le> i \<and> i < int (length xs))"

definition array_set :: "'a list \<Rightarrow> int \<Rightarrow> 'a \<Rightarrow> 'a list" where
  "array_set xs i v =
     (if array_defined xs i then xs[nat i := v]
      else if i = int (length xs) then xs @ [v]
      else xs)"

definition array_push_at :: "'a list list \<Rightarrow> int \<Rightarrow> 'a \<Rightarrow> 'a list list" where
  "array_push_at xs i v =
     (if array_defined xs i then xs[nat i := xs ! nat i @ [v] ] else xs)"

text \<open>One round of the \<open>forEach\<close> of \<open>notifyBoundaries\<close>, on the locals \<open>latLngs\<close>,
  \<open>last\<close> and \<open>index\<close> (primed where the name is taken). \<open>last\<close> starts as \<open>null\<close>,
  which no \<open>_polygonId\<close> equals, and \<open>index\<close> as \<open>-1\<close>.\<close>

definition notify_step ::
  "'g list list \<times> nat option \<times> int \<Rightarrow> 'g edge \<Rightarrow> 'g list list \<times> nat option \<times> int" where
  "notify_step acc edge =
     (case acc of (latLngs', last', index) \<Rightarrow>
        let index = (if Some (e_polygonId edge) \<noteq> last' then index + 1 else index);
            latLngs' = (if \<not> array_defined latLngs' index then array_set latLngs' index []
                        else latLngs')
        in (array_push_at latLngs' index (e_latlng edge), Some (e_polygonId edge), index))"

definition notify_loop :: "'g edge list \<Rightarrow> 'g list list \<times> nat option \<times> int" where
  "notify_loop es = foldl notify_step ([], None, - 1) es"

text \<open>The list of groups handed to \<open>markersFn\<close>.\<close>

definition boundaries :: "'g edge list \<Rightarrow> 'g list list" where
  "boundaries es = fst (notify_loop es)"

definition notifyBoundaries :: "'g freedraw \<Rightarrow> 'g freedraw" where
  "notifyBoundaries s =
     s\<lparr>markersFn_calls := markersFn_calls s @ [boundaries (map (markers s) (edges s))]\<rparr>"

section \<open>setMode\<close>

text \<open>\<open>defineClasses\<close>: the four indicator classes are removed, then one is added for each
  mode bit.\<close>

definition defineClasses :: "nat \<Rightarrow> string set \<Rightarrow> string set" where
  "defineClasses m cl =
     (let cl = cl - {''mode-create''};
          cl = cl - {''mode-edit''};
          cl = cl - {''mode-delete''};
          cl = cl - {''mode-view''};
          cl = (if m AND MODES_CREATE \<noteq> 0 then insert ''mode-create'' cl else cl);
          cl = (if m AND MODES_EDIT \<noteq> 0 then insert ''mode-edit'' cl else cl);
          cl = (if m AND MODES_DELETE \<noteq> 0 then insert ''mode-delete'' cl else cl);
          cl = (if m AND MODES_VIEW \<noteq> 0 then insert ''mode-view'' cl else cl)
      in cl)"

text \<open>\<open>method\<close> is \<open>'enable'\<close> (True) unless the CREATE bit is set; the four handlers
  are switched with it.\<close>

definition setMode :: "nat \<Rightarrow> 'g freedraw \<Rightarrow> 'g freedraw" where
  "setMode m s =
     (let isCreate = (m AND MODES_CREATE \<noteq> 0);
          method = (\<not> isCreate);
          s = s\<lparr>mode := m\<rparr>
      in case map_obj s of
           None \<Rightarrow> s
         | Some _ \<Rightarrow>
             let s = (if boundaryUpdateRequired s \<and> \<not> (mode s AND MODES_EDIT \<noteq> 0)
                      then (notifyBoundaries s)\<lparr>boundaryUpdateRequired := False\<rparr>
                      else s)
             in s\<lparr>map_obj := map_option
                    (\<lambda>mp. mp\<lparr>dragging := method, touchZoom := method,
                              doubleClickZoom := method, scrollWheelZoom := method,
                              classList := defineClasses m (classList mp)\<rparr>)
                    (map_obj s)\<rparr>)"

section \<open>setMarkers\<close>

text \<open>\<open>throwException\<close> is only ever called without a \<open>path\<close>, so nothing is printed
  before the string is thrown.\<close>

definition throwException :: "string \<Rightarrow> error" where
  "throwException message = Exception (''Leaflet.FreeDraw: '' @ message @ ''.'')"

text \<open>The arguments of \<open>setMarkers\<close>: an entry of \<open>markers\<close> is an \<open>L.LatLng\<close> or some
  other value; \<open>divIcon\<close> is left out (\<open>undefined\<close>), an \<open>L.DivIcon\<close> (with its class
  name), or some other value. \<open>markers\<close> itself is \<open>None\<close> when it is falsy.\<close>

datatype 'g marker_arg = LatLng 'g | NotLatLng

datatype icon_arg = NoIcon | DivIcon string | NotDivIcon

fun instanceof_DivIcon :: "icon_arg \<Rightarrow> bool" where
  "instanceof_DivIcon (DivIcon _) = True"
| "instanceof_DivIcon _ = False"

text \<open>The \<open>for\<close> loop of \<open>setMarkers\<close> on the markers of the layer group: it stops at the
  first entry that is no \<open>L.LatLng\<close>, with the markers added so far.\<close>

fun addMarkers ::
  "string option \<Rightarrow> 'g marker_arg list \<Rightarrow> ('g \<times> string option) list
     \<Rightarrow> error option \<times> ('g \<times> string option) list" where
  "addMarkers icon [] acc = (None, acc)"
| "addMarkers icon (NotLatLng # ms) acc =
     (Some (throwException ''Supplied markers must be instances of L.LatLng''), acc)"
| "addMarkers icon (LatLng g # ms) acc = addMarkers icon ms (acc @ [(g, icon)])"

definition setMarkers ::
  "'g marker_arg list option \<Rightarrow> icon_arg \<Rightarrow> 'g freedraw \<Rightarrow> (unit, 'g freedraw) outcome" where
  "setMarkers ms divIcon s =
     (if divIcon \<noteq> NoIcon \<and> \<not> instanceof_DivIcon divIcon
      then Throw (throwException ''Second argument must be an instance of L.DivIcon'') s
      else case map_obj s of
        None \<Rightarrow> Throw TypeError s
      | Some mp \<Rightarrow>
          let mp = mp\<lparr>layers := layers mp - {lg_id (markerLayer s)}\<rparr>;
              s = s\<lparr>markerLayer := \<lparr>lg_id = lastId s + 1, lg_markers = []\<rparr>,
                    lastId := lastId s + 1\<rparr>;
              mp = mp\<lparr>layers := insert (lg_id (markerLayer s)) (layers mp)\<rparr>;
              s = s\<lparr>map_obj := Some mp\<rparr>
          in case ms of
               None \<Rightarrow> Return () s
             | Some [] \<Rightarrow> Return () s
             | Some ms \<Rightarrow>
                 let icon = (case divIcon of DivIcon i \<Rightarrow> Some i | _ \<Rightarrow> None)
                 in case addMarkers icon ms (lg_markers (markerLayer s)) of
                      (None, added) \<Rightarrow>
                        Return () (s\<lparr>markerLayer := (markerLayer s)\<lparr>lg_markers := added\<rparr>\<rparr>)
                    | (Some e, added) \<Rightarrow>
                        Throw e (s\<lparr>markerLayer := (markerLayer s)\<lparr>lg_markers := added\<rparr>\<rparr>))"

section \<open>destroyPolygon and clearPolygons\<close>

text \<open>\<open>this.edges.filter(...)\<close> in \<open>destroyPolygon\<close>: an edge of another polygon is kept
  (the callback returns \<open>true\<close>); an edge of this polygon has its icon removed and is
  dropped (the callback returns nothing). The result is the new array and the marker store.\<close>

fun remove_edges :: "nat \<Rightarrow> nat list \<Rightarrow> (nat \<Rightarrow> 'g edge) \<Rightarrow> nat list \<times> (nat \<Rightarrow> 'g edge)" where
  "remove_edges polygon [] ms = ([], ms)"
| "remove_edges polygon (edge # rest) ms =
     (if e_polygon (ms edge) \<noteq> polygon
      then (case remove_edges polygon rest ms of (kept, ms') \<Rightarrow> (edge # kept, ms'))
      else remove_edges polygon rest
             (ms(edge := (ms edge)\<lparr>e_icon_removals := e_icon_removals (ms edge) + 1\<rparr>)))"

text \<open>\<open>destroyPolygon\<close> has no \<open>return\<close> statement: the value of a call is \<open>undefined\<close>.\<close>

definition destroyPolygon :: "nat \<Rightarrow> 'g freedraw \<Rightarrow> jsval \<times> 'g freedraw" where
  "destroyPolygon polygon s =
     (let s = s\<lparr>polygons := (polygons s)(polygon := (polygons s polygon)
                  \<lparr>p_container_removals := p_container_removals (polygons s polygon) + 1\<rparr>)\<rparr>;
          (kept, ms) = remove_edges polygon (edges s) (markers s);
          s = s\<lparr>edges := kept, markers := ms\<rparr>;
          s = notifyBoundaries s
      in (Undefined, s))"

text \<open>\<open>clearPolygons\<close>: the \<open>forEach\<close> runs over the array that \<open>this.edges\<close> is when the
  loop starts; \<open>destroyPolygon\<close> puts a new array in \<open>this.edges\<close> and leaves that one as
  it was, so every edge of it is visited.\<close>

definition clearPolygons :: "'g freedraw \<Rightarrow> 'g freedraw" where
  "clearPolygons s =
     notifyBoundaries
       (foldl (\<lambda>s edge. snd (destroyPolygon (e_polygon (markers s edge)) s)) s (edges s))"

section \<open>attachEdges and createPolygon\<close>

text \<open>The callback of the \<open>forEach\<close> of \<open>attachEdges\<close>: the point gets a new marker,
  which is put on the map, given its five fields and pushed on \<open>this.edges\<close>.\<close>

definition attach_step ::
  "'g leaflet \<Rightarrow> nat \<Rightarrow> nat \<Rightarrow> point \<Rightarrow> nat \<Rightarrow> 'g freedraw \<Rightarrow> 'g freedraw" where
  "attach_step env polygon len point index s =
     (let latLng = layerPointToLatLng env point;
          edge = lastId s + 1;
          s = s\<lparr>lastId := edge,
                map_obj := map_option (\<lambda>mp. mp\<lparr>layers := insert edge (layers mp)\<rparr>) (map_obj s)\<rparr>;
          s = s\<lparr>markers := (markers s)(edge :=
                  \<lparr>e_latlng = latLng, e_polygon = polygon, e_polygonId = polygon,
                   e_index = index, e_length = len, e_icon_removals = 0\<rparr>)\<rparr>;
          s = s\<lparr>edges := edges s @ [edge]\<rparr>
      in s)"

text \<open>The \<open>forEach\<close> itself, over the ring from the given index on.\<close>

fun attach_loop ::
  "'g leaflet \<Rightarrow> nat \<Rightarrow> nat \<Rightarrow> point list \<Rightarrow> nat \<Rightarrow> 'g freedraw \<Rightarrow> 'g freedraw" where
  "attach_loop env polygon len [] index s = s"
| "attach_loop env polygon len (point # rest) index s =
     attach_loop env polygon len rest (index + 1) (attach_step env polygon len point index s)"

text \<open>\<open>attachEdges\<close> reads \<open>polygon._parts[0]\<close> and calls its \<open>forEach\<close>, which fails
  when the ring is \<open>undefined\<close>. Without a map the first round fails, reading
  \<open>layerPointToLatLng\<close> from \<open>null\<close>.\<close>

definition attachEdges :: "'g leaflet \<Rightarrow> nat \<Rightarrow> 'g freedraw \<Rightarrow> (unit, 'g freedraw) outcome" where
  "attachEdges env polygon s =
     (case p_parts (polygons s polygon) of
        None \<Rightarrow> Throw TypeError s
      | Some parts \<Rightarrow>
          if parts \<noteq> [] \<and> map_obj s = None then Throw TypeError s
          else Return () (attach_loop env polygon (length parts) parts 0 s))"

text \<open>\<open>destroyD3\<close> removes the tracer, which fails while \<open>svg\<close> is the empty object (it
  has no \<open>remove\<close>), and \<open>createD3\<close> appends a new one.\<close>

definition destroyD3 :: "'g freedraw \<Rightarrow> (unit, 'g freedraw) outcome" where
  "destroyD3 s = (case svg s of None \<Rightarrow> Throw TypeError s | Some _ \<Rightarrow> Return () (s\<lparr>svg := None\<rparr>))"

definition createD3 :: "'g freedraw \<Rightarrow> 'g freedraw" where
  "createD3 s = s\<lparr>svg := Some []\<rparr>"

text \<open>\<open>createPolygon\<close>: the tracer is destroyed and created again; the polygon is built
  from \<open>latLngs\<close> and put on the map (which fails on \<open>null\<close>), where Leaflet computes its
  ring; its \<open>_latlngs\<close> are emptied, the edges attached (which fails when there is no
  ring), and the \<open>_latlngs\<close> filled again from the ring.\<close>

definition createPolygon ::
  "'g leaflet \<Rightarrow> 'g list \<Rightarrow> 'g freedraw \<Rightarrow> (nat, 'g freedraw) outcome" where
  "createPolygon env latLngs' s =
     (case destroyD3 s of
        Throw e s \<Rightarrow> Throw e s
      | Return _ s \<Rightarrow>
      let s = createD3 s
      in case map_obj s of
           None \<Rightarrow> Throw TypeError s
         | Some mp \<Rightarrow>
             let polygon = lastId s + 1;
                 s = s\<lparr>lastId := polygon,
                       polygons := (polygons s)(polygon :=
                         \<lparr>p_latlngs = polygonLatLngs env latLngs',
                          p_parts = render env (polygonLatLngs env latLngs'),
                          p_container_removals = 0, p_redraws = 0, p_onclick = False\<rparr>),
                       map_obj := Some (mp\<lparr>layers := insert polygon (layers mp)\<rparr>)\<rparr>;
                 s = s\<lparr>polygons := (polygons s)(polygon :=
                         (polygons s polygon)\<lparr>p_latlngs := []\<rparr>)\<rparr>
             in case attachEdges env polygon s of
                  Throw e s \<Rightarrow> Throw e s
                | Return _ s \<Rightarrow>
                    (case p_parts (polygons s polygon) of
                       None \<Rightarrow> Throw TypeError s
                     | Some parts \<Rightarrow>
                         let s = s\<lparr>polygons := (polygons s)(polygon := (polygons s polygon)
                                      \<lparr>p_latlngs := p_latlngs (polygons s polygon) @
                                         map (containerPointToLatLng env) parts\<rparr>)\<rparr>;
                             s = notifyBoundaries s
                         in Return polygon s))"

section \<open>The hull methods\<close>

text \<open>
  \<open>brian3kbGrahamScan\<close> projects the coordinates to container points, takes their hull,
  repeats its first point at the end and projects back. It reads the projections from the
  map it was given by \<open>setMap\<close>, which fails on \<open>null\<close>; and when the hull is empty the
  point pushed at the end is \<open>undefined\<close>, which the projection cannot read.
\<close>

definition brian3kbGrahamScan ::
  "'g leaflet \<Rightarrow> lmap option \<Rightarrow> 'g list \<Rightarrow> error + 'g list" where
  "brian3kbGrahamScan env mp latLngs' =
     (if mp = None then Inl TypeError
      else let points = map (latLngToContainerPoint env) latLngs';
               resolvedPoints = getHull env points
           in case resolvedPoints of
                [] \<Rightarrow> Inl TypeError
              | p # _ \<Rightarrow> Inr (map (containerPointToLatLng env) (resolvedPoints @ [p])))"

text \<open>\<open>wildhoneyConcaveHull\<close> pushes the first point on the array it is given, which is
  the caller's array, and hands it to the library: it returns the hull and the array as it
  has become. On an empty array the entry pushed is \<open>undefined\<close>, of which the library
  cannot read the coordinates.\<close>

definition wildhoneyConcaveHull :: "'g leaflet \<Rightarrow> 'g list \<Rightarrow> error + 'g list \<times> 'g list" where
  "wildhoneyConcaveHull env latLngs' =
     (case latLngs' of
        [] \<Rightarrow> Inl TypeError
      | p # _ \<Rightarrow> Inr (getLatLngs env (latLngs' @ [p]), latLngs' @ [p]))"

section \<open>Finishing a trace: createMouseUp\<close>

text \<open>\<open>this.hull[this.options.hullAlgorithm](this.latLngs)\<close>: the local \<open>latLngs\<close> (which
  stays \<open>undefined\<close>, here \<open>None\<close>, when no algorithm is set) and \<open>this.latLngs\<close> after
  the call.\<close>

definition applyHull ::
  "'g leaflet \<Rightarrow> 'g freedraw \<Rightarrow> error + 'g list option \<times> 'g list" where
  "applyHull env s =
     (case hullAlgorithm (options s) of
        None \<Rightarrow> Inr (None, latLngs s)
      | Some Brian3kbGrahamScan \<Rightarrow>
          (case brian3kbGrahamScan env (map_obj s) (latLngs s) of
             Inl e \<Rightarrow> Inl e
           | Inr hull' \<Rightarrow> Inr (Some hull', latLngs s))
      | Some WildhoneyConcaveHull \<Rightarrow>
          (case wildhoneyConcaveHull env (latLngs s) of
             Inl e \<Rightarrow> Inl e
           | Inr (hull', pushed) \<Rightarrow> Inr (Some hull', pushed)))"

definition createMouseUp :: "'g leaflet \<Rightarrow> 'g freedraw \<Rightarrow> (unit, 'g freedraw) outcome" where
  "createMouseUp env s =
     (let s = s\<lparr>creating := False\<rparr>
      in if length (latLngs s) \<le> 2 then Return () s
         else case applyHull env s of
           Inl e \<Rightarrow> Throw e s
         | Inr (hull', traced) \<Rightarrow>
             let s = s\<lparr>latLngs := traced @ [traced ! 0]\<rparr>
             in case createPolygon env (case hull' of Some h \<Rightarrow> h | None \<Rightarrow> latLngs s) s of
                  Throw e s \<Rightarrow> Throw e s
                | Return polygon s \<Rightarrow>
                    let s = s\<lparr>latLngs := []\<rparr>;
                        s = s\<lparr>polygons := (polygons s)(polygon :=
                                (polygons s polygon)\<lparr>p_onclick := True\<rparr>)\<rparr>
                    in Return () (if createExitMode (options s)
                                  then setMode (mode s XOR MODES_CREATE) s else s))"

text \<open>The click handler that \<open>_createMouseUp\<close> registers on the polygon.\<close>

definition onClick :: "nat \<Rightarrow> 'g freedraw \<Rightarrow> 'g freedraw" where
  "onClick polygon s =
     (if mode s AND MODES_DELETE \<noteq> 0 then snd (destroyPolygon polygon s) else s)"

text \<open>The handler of \<open>mouseup\<close>, \<open>mouseout\<close> and \<open>mouseleave\<close> on the map.\<close>

definition onMouseUpAndMouseLeave ::
  "'g leaflet \<Rightarrow> 'g freedraw \<Rightarrow> (unit, 'g freedraw) outcome" where
  "onMouseUpAndMouseLeave env s =
     (case movingEdge s of
        Some _ \<Rightarrow>
          let s = (if \<not> boundariesAfterEdit (options s) then notifyBoundaries s
                   else s\<lparr>boundaryUpdateRequired := True\<rparr>)
          in Return () (s\<lparr>movingEdge := None\<rparr>)
      | None \<Rightarrow> createMouseUp env s)"

section \<open>Dragging an edge: updatePolygonEdge\<close>

text \<open>\<open>redraw\<close> lets Leaflet compute the ring again from the \<open>_latlngs\<close>; the model
  counts the redraws. Leaflet's \<open>setLatLngs\<close> stores the coordinates and ends with
  \<open>redraw()\<close>.\<close>

definition redraw :: "'g leaflet \<Rightarrow> 'g polygon \<Rightarrow> 'g polygon" where
  "redraw env p = p\<lparr>p_parts := render env (p_latlngs p), p_redraws := p_redraws p + 1\<rparr>"

definition setLatLngs :: "'g leaflet \<Rightarrow> 'g list \<Rightarrow> 'g polygon \<Rightarrow> 'g polygon" where
  "setLatLngs env latlngs p = redraw env (p\<lparr>p_latlngs := latlngs\<rparr>)"

definition updatePolygonEdge ::
  "'g leaflet \<Rightarrow> nat \<Rightarrow> int \<Rightarrow> int \<Rightarrow> 'g freedraw \<Rightarrow> (unit, 'g freedraw) outcome" where
  "updatePolygonEdge env edge posX posY s =
     (case map_obj s of
        None \<Rightarrow> Throw TypeError s
      | Some _ \<Rightarrow>
          let updatedLatLng = containerPointToLatLng env (posX, posY);
              s = s\<lparr>markers := (markers s)(edge := (markers s edge)\<lparr>e_latlng := updatedLatLng\<rparr>)\<rparr>;
              edges' = filter (\<lambda>marker. e_polygon (markers s marker) = e_polygon (markers s edge))
                         (edges s);
              updatedLatLngs = map (\<lambda>marker. e_latlng (markers s marker)) edges';
              polygon = e_polygon (markers s edge);
              s = s\<lparr>polygons := (polygons s)(polygon :=
                      setLatLngs env updatedLatLngs (polygons s polygon))\<rparr>;
              s = s\<lparr>polygons := (polygons s)(polygon := redraw env (polygons s polygon))\<rparr>
          in Return () s)"

section \<open>Options: setHullAlgorithm\<close>

text \<open>The argument is a string or a boolean. \<open>hullAlgorithms\<close> has two own properties;
  a property is looked up by the string of the argument.\<close>

datatype algorithm_arg = Name string | Flag bool

definition hullAlgorithms :: "(string \<times> hull_method) list" where
  "hullAlgorithms =
     [(''brian3kb/graham_scan_js'', Brian3kbGrahamScan),
      (''Wildhoney/ConcaveHull'', WildhoneyConcaveHull)]"

fun truthy :: "algorithm_arg \<Rightarrow> bool" where
  "truthy (Name n) = (n \<noteq> [])"
| "truthy (Flag b) = b"

fun property_key :: "algorithm_arg \<Rightarrow> string" where
  "property_key (Name n) = n"
| "property_key (Flag True) = ''true''"
| "property_key (Flag False) = ''false''"

definition setHullAlgorithm :: "algorithm_arg \<Rightarrow> options \<Rightarrow> options" where
  "setHullAlgorithm algorithm opts =
     (if truthy algorithm \<and> map_of hullAlgorithms (property_key algorithm) = None
      then opts
      else opts\<lparr>hullAlgorithm := map_of hullAlgorithms (property_key algorithm)\<rparr>)"

section \<open>The handles of a shape\<close>

text \<open>The edge markers of \<open>this.edges\<close>, in array order.\<close>

definition live_edges :: "'g freedraw \<Rightarrow> 'g edge list" where
  "live_edges s = map (markers s) (edges s)"

text \<open>The handles of one shape, in the order in which they stand in the array.\<close>

definition handles_of :: "nat \<Rightarrow> 'g edge list \<Rightarrow> 'g edge list" where
  "handles_of i es = filter (\<lambda>e. e_polygonId e = i) es"

text \<open>The handles of every shape stand together: no identifier starts two runs.\<close>

definition contiguous :: "'g edge list \<Rightarrow> bool" where
  "contiguous es = distinct (remdups_adj (map e_polygonId es))"

text \<open>The handles of every shape stand in the order of their vertex indices.\<close>

definition index_ordered :: "'g edge list \<Rightarrow> bool" where
  "index_ordered es =
     (\<forall>i \<in> set (map e_polygonId es). sorted (map e_index (handles_of i es)))"

section \<open>Reading outcomes and arguments\<close>

text \<open>The state a call leaves, and the value it throws, if any.\<close>

fun final :: "('r, 's) outcome \<Rightarrow> 's" where
  "final (Return _ s) = s"
| "final (Throw _ s) = s"

fun thrown :: "('r, 's) outcome \<Rightarrow> error option" where
  "thrown (Return _ _) = None"
| "thrown (Throw e _) = Some e"

text \<open>The coordinates of the entries of \<open>markers\<close> that stand before the first entry
  that is no \<open>L.LatLng\<close>, and the icon a valid second argument gives the new markers.\<close>

fun valid_prefix :: "'g marker_arg list \<Rightarrow> 'g list" where
  "valid_prefix [] = []"
| "valid_prefix (LatLng g # ms) = g # valid_prefix ms"
| "valid_prefix (NotLatLng # ms) = []"

fun icon_option :: "icon_arg \<Rightarrow> string option" where
  "icon_option (DivIcon i) = Some i"
| "icon_option _ = None"

text \<open>The traced points with the first of them once more at the end.\<close>

definition closed_trace :: "'g freedraw \<Rightarrow> 'g list" where
  "closed_trace s = latLngs s @ [latLngs s ! 0]"

section \<open>The states the editor reaches\<close>

text \<open>
  What the methods keep true of \<open>this.edges\<close>: the handles of every shape stand together
  and in the order of their vertex indices, every handle lies at an address the counter
  has passed and belongs to a polygon at such an address, and \<open>_polygon\<close> and
  \<open>_polygonId\<close> name the same polygon.
\<close>

definition tidy :: "'g freedraw \<Rightarrow> bool" where
  "tidy s \<longleftrightarrow>
     contiguous (live_edges s) \<and> index_ordered (live_edges s) \<and>
     (\<forall>r \<in> set (edges s). r \<le> lastId s \<and> e_polygonId (markers s r) \<le> lastId s \<and>
        e_polygon (markers s r) = e_polygonId (markers s r))"

text \<open>The marker that \<open>attachEdges\<close> creates for the point of index \<open>k\<close> of a ring.\<close>

definition new_edge :: "'g leaflet \<Rightarrow> nat \<Rightarrow> nat \<Rightarrow> point list \<Rightarrow> nat \<Rightarrow> 'g edge" where
  "new_edge env p n pts k =
     \<lparr>e_latlng = layerPointToLatLng env (pts ! k), e_polygon = p, e_polygonId = p,
      e_index = k, e_length = n, e_icon_removals = 0\<rparr>"

text \<open>
  The states reached from an editor without handles by the methods and handlers above;
  the last rule stands for the handlers and setters that leave the handles, the markers
  and the counter alone (\<open>mousedown\<close>, \<open>mousemove\<close>, the setters of the options).
\<close>

inductive reachable :: "'g leaflet \<Rightarrow> 'g freedraw \<Rightarrow> bool" for env :: "'g leaflet" where
  start: "edges s = [] \<Longrightarrow> reachable env s"
| by_setMode: "reachable env s \<Longrightarrow> reachable env (setMode m s)"
| by_notifyBoundaries: "reachable env s \<Longrightarrow> reachable env (notifyBoundaries s)"
| by_destroyPolygon: "reachable env s \<Longrightarrow> reachable env (snd (destroyPolygon polygon s))"
| by_clearPolygons: "reachable env s \<Longrightarrow> reachable env (clearPolygons s)"
| by_onClick: "reachable env s \<Longrightarrow> reachable env (onClick polygon s)"
| by_setMarkers: "reachable env s \<Longrightarrow> reachable env (final (setMarkers ms divIcon s))"
| by_createPolygon: "reachable env s \<Longrightarrow> reachable env (final (createPolygon env gs s))"
| by_createMouseUp: "reachable env s \<Longrightarrow> reachable env (final (createMouseUp env s))"
| by_mouseUp: "reachable env s \<Longrightarrow> reachable env (final (onMouseUpAndMouseLeave env s))"
| by_updatePolygonEdge:
    "reachable env s \<Longrightarrow> reachable env (final (updatePolygonEdge env edge posX posY s))"
| by_other:
    "reachable env s \<Longrightarrow> edges s' = edges s \<Longrightarrow> markers s' = markers s \<Longrightarrow>
     lastId s' = lastId s \<Longrightarrow> reachable env s'"

section \<open>Concrete editors\<close>

text \<open>The states and collaborators at which the theorems below are evaluated.
  Geo-coordinates are pixel points here, and the projections are the identity.\<close>

definition map0 :: lmap where
  "map0 = \<lparr>dragging = True, touchZoom = True, doubleClickZoom = True, scrollWheelZoom = True,
           classList = {''leaflet-container'', ''mode-view''}, layers = {}\<rparr>"

text \<open>An editor on a map, in VIEW mode, with the default options and nothing drawn.\<close>

definition editor0 :: "point freedraw" where
  "editor0 =
     \<lparr>map_obj = Some map0, svg = Some [], creating = False, latLngs = [],
      options = \<lparr>multiplePolygons = True, hullAlgorithm = None, boundariesAfterEdit = False,
                 createExitMode = True\<rparr>,
      markerLayer = \<lparr>lg_id = 0, lg_markers = []\<rparr>, edges = [], mode = 1, movingEdge = None,
      boundaryUpdateRequired = False,
      markers = (\<lambda>_. \<lparr>e_latlng = (0, 0), e_polygon = 0, e_polygonId = 0, e_index = 0,
                        e_length = 0, e_icon_removals = 0\<rparr>),
      polygons = (\<lambda>_. \<lparr>p_latlngs = [], p_parts = None, p_container_removals = 0,
                         p_redraws = 0, p_onclick = False\<rparr>),
      lastId = 0, markersFn_calls = []\<rparr>"

text \<open>Collaborators that hand back what they are given: a polygon keeps the coordinates
  it was built from, its ring has one point for each of them, and the hulls are the
  points themselves. Leaflet does not draw so; they serve where the ring plays no part.\<close>

definition leaflet_exact :: "point leaflet" where
  "leaflet_exact =
     \<lparr>containerPointToLatLng = (\<lambda>p. p), layerPointToLatLng = (\<lambda>p. p),
      latLngToContainerPoint = (\<lambda>g. g), polygonLatLngs = (\<lambda>gs. gs),
      render = (\<lambda>gs. Some gs),
      getHull = (\<lambda>ps. ps), getLatLngs = (\<lambda>gs. gs)\<rparr>"

text \<open>The same editor in CREATE mode, after a trace of two points.\<close>

definition short_trace :: "point freedraw" where
  "short_trace = editor0\<lparr>creating := True, latLngs := [(10, 10), (50, 10)], mode := 2\<rparr>"

text \<open>A handle of a polygon, as \<open>attachEdges\<close> creates it.\<close>

definition handle :: "point \<Rightarrow> nat \<Rightarrow> nat \<Rightarrow> nat \<Rightarrow> point edge" where
  "handle g polygon index len =
     \<lparr>e_latlng = g, e_polygon = polygon, e_polygonId = polygon, e_index = index,
      e_length = len, e_icon_removals = 0\<rparr>"

text \<open>An editor with a polygon 1 of three handles and a polygon 5 of two.\<close>

definition two_shapes :: "point freedraw" where
  "two_shapes = editor0
     \<lparr>edges := [2, 3, 4, 6, 7], lastId := 7,
      markers := (markers editor0)
        (2 := handle (10, 10) 1 0 3, 3 := handle (50, 10) 1 1 3, 4 := handle (50, 50) 1 2 3,
         6 := handle (70, 70) 5 0 2, 7 := handle (90, 70) 5 1 2)\<rparr>"

text \<open>The same store, with a handle of polygon 5 between two handles of polygon 1.\<close>

definition interleaved :: "point freedraw" where
  "interleaved = two_shapes\<lparr>edges := [2, 6, 3]\<rparr>"

text \<open>An editor that has not been added to a map: it has no map and no tracer.\<close>

definition detached :: "point freedraw" where
  "detached = editor0\<lparr>map_obj := None, svg := None\<rparr>"

text \<open>An editor whose marker layer, with address 1, is on the map and holds one marker.\<close>

definition with_markers :: "point freedraw" where
  "with_markers = editor0
     \<lparr>map_obj := Some (map0\<lparr>layers := {1}\<rparr>), lastId := 1,
      markerLayer := \<lparr>lg_id = 1, lg_markers = [((5, 5), None)]\<rparr>\<rparr>"

text \<open>The options after the Graham scan has been chosen by its name.\<close>

definition graham_options :: options where
  "graham_options = setHullAlgorithm (Name ''brian3kb/graham_scan_js'') (options editor0)"

text \<open>
  Leaflet 0.7, whose plugin the editor is, as far as it makes the ring of a polygon: the
  constructor \<open>L.Polygon\<close> leaves out a last coordinate that equals the first; on the map
  the coordinates are projected, clipped to the viewport and simplified with the smooth
  factor, for which the editor passes its option \<open>smoothFactor\<close>, 5 unless it is set.
  The definitions follow Leaflet's source, with numbers taken as exact rationals.
\<close>

definition initWithHoles :: "'g list \<Rightarrow> 'g list" where
  "initWithHoles latlngs =
     (if length latlngs \<ge> 2 \<and> latlngs ! 0 = latlngs ! (length latlngs - 1)
      then butlast latlngs else latlngs)"

text \<open>\<open>L.LineUtil.simplify\<close>: points closer to the last point kept than the tolerance
  are dropped, except the last point (\<open>_reducePoints\<close>); then, between two points that
  stay, the point that lies farthest from their segment stays if it lies farther than the
  tolerance, and so on to both sides of it (\<open>_simplifyDP\<close>).\<close>

definition sqDist :: "point \<Rightarrow> point \<Rightarrow> int" where
  "sqDist p1 p2 = (let dx = fst p2 - fst p1; dy = snd p2 - snd p1 in dx * dx + dy * dy)"

fun reducePoints_from :: "int \<Rightarrow> point \<Rightarrow> point list \<Rightarrow> point list" where
  "reducePoints_from sqTolerance prev [] = []"
| "reducePoints_from sqTolerance prev [p] = [p]"
| "reducePoints_from sqTolerance prev (p # q # ps) =
     (if sqDist p prev > sqTolerance then p # reducePoints_from sqTolerance p (q # ps)
      else reducePoints_from sqTolerance prev (q # ps))"

definition reducePoints :: "point list \<Rightarrow> int \<Rightarrow> point list" where
  "reducePoints points sqTolerance =
     (case points of [] \<Rightarrow> [] | p # rest \<Rightarrow> p # reducePoints_from sqTolerance p rest)"

text \<open>The square of the distance of \<open>p\<close> from the segment from \<open>p1\<close> to \<open>p2\<close>.\<close>

definition sqClosestPointOnSegment :: "point \<Rightarrow> point \<Rightarrow> point \<Rightarrow> rat" where
  "sqClosestPointOnSegment p p1 p2 =
     (let x = of_int (fst p1); y = of_int (snd p1);
          dx = of_int (fst p2) - x; dy = of_int (snd p2) - y;
          dot = dx * dx + dy * dy;
          t = ((of_int (fst p) - x) * dx + (of_int (snd p) - y) * dy) / dot;
          (x, y) = (if dot > 0
                    then (if t > 1 then (of_int (fst p2), of_int (snd p2))
                          else if t > 0 then (x + dx * t, y + dy * t)
                          else (x, y))
                    else (x, y));
          dx = of_int (fst p) - x; dy = of_int (snd p) - y
      in dx * dx + dy * dy)"

text \<open>The loop of \<open>_simplifyDPStep\<close>: the first index strictly between \<open>first\<close> and
  \<open>last\<close> whose point lies farthest from the segment, with the square of its distance;
  \<open>index\<close> stays \<open>undefined\<close> when no distance is positive.\<close>

fun farthest_in ::
  "point list \<Rightarrow> nat \<Rightarrow> nat \<Rightarrow> nat list \<Rightarrow> nat option \<times> rat \<Rightarrow> nat option \<times> rat" where
  "farthest_in points first last' [] acc = acc"
| "farthest_in points first last' (i # rest) acc =
     (let sqDist' = sqClosestPointOnSegment (points ! i) (points ! first) (points ! last')
      in farthest_in points first last' rest
           (if sqDist' > snd acc then (Some i, sqDist') else acc))"

definition farthest :: "point list \<Rightarrow> nat \<Rightarrow> nat \<Rightarrow> nat option \<times> rat" where
  "farthest points first last' = farthest_in points first last' [first + 1 ..< last'] (None, 0)"

text \<open>\<open>_simplifyDPStep\<close> sets markers in an array; here it yields the indices it marks.\<close>

function simplifyDPStep :: "point list \<Rightarrow> int \<Rightarrow> nat \<Rightarrow> nat \<Rightarrow> nat set" where
  "simplifyDPStep points sqTolerance first last' =
     (case farthest points first last' of
        (Some index, maxSqDist) \<Rightarrow>
          if maxSqDist > of_int sqTolerance
          then insert index (simplifyDPStep points sqTolerance first index \<union>
                             simplifyDPStep points sqTolerance index last')
          else {}
      | (None, _) \<Rightarrow> {})"
  by pat_completeness auto
termination
proof -
  have mem: "i \<in> set is \<or> fst acc = Some i"
    if "fst (farthest_in points first last' is acc) = Some i"
    for points first last' "is" acc i
    using that
  proof (induction "is" arbitrary: acc)
    case Nil
    then show ?case by simp
  next
    case (Cons j js)
    let ?d = "sqClosestPointOnSegment (points ! j) (points ! first) (points ! last')"
    from Cons.prems have "fst (farthest_in points first last' js
        (if ?d > snd acc then (Some j, ?d) else acc)) = Some i"
      by (simp add: Let_def)
    from Cons.IH[OF this] show ?case by (auto split: if_splits)
  qed
  have between: "first < index \<and> index < last'"
    if "(Some index, m) = farthest points first last'" for points first last' index m
    using mem[of points first last' "[first + 1 ..< last']" "(None, 0)" index] that[symmetric]
    by (simp add: farthest_def)
  show ?thesis
    by (relation "measure (\<lambda>(points, sqTolerance, first, last'). last' - first)")
       (auto dest!: between)
qed

definition simplifyDP :: "point list \<Rightarrow> int \<Rightarrow> point list" where
  "simplifyDP points sqTolerance =
     (let len = length points;
          markers = insert 0 (insert (len - 1) (simplifyDPStep points sqTolerance 0 (len - 1)))
      in map (\<lambda>i. points ! i) (filter (\<lambda>i. i \<in> markers) [0 ..< len]))"

definition simplify :: "point list \<Rightarrow> int \<Rightarrow> point list" where
  "simplify points tolerance =
     (if tolerance = 0 \<or> points = [] then points
      else let sqTolerance = tolerance * tolerance;
               points = reducePoints points sqTolerance
           in simplifyDP points sqTolerance)"

text \<open>Leaflet on a map whose projections are the identity and whose viewport holds every
  point, so that clipping leaves a ring as it is; of no points no ring is kept.\<close>

definition leaflet07 :: "point leaflet" where
  "leaflet07 = leaflet_exact
     \<lparr>polygonLatLngs := initWithHoles,
      render := (\<lambda>latlngs. if latlngs = [] then None else Some (simplify latlngs 5))\<rparr>"

text \<open>Leaflet on a map whose viewport lies apart from every polygon: clipping leaves
  nothing of a ring.\<close>

definition leaflet07_away :: "point leaflet" where
  "leaflet07_away = leaflet07\<lparr>render := (\<lambda>latlngs. None)\<rparr>"

text \<open>The editor in CREATE mode after a trace of the four corners of a square.\<close>

definition box_trace :: "point freedraw" where
  "box_trace = editor0
     \<lparr>creating := True, mode := 2, latLngs := [(10, 10), (50, 10), (50, 50), (10, 50)]\<rparr>"

text \<open>The editor in CREATE mode after a trace of five points, two of them close together.\<close>

definition square_trace :: "point freedraw" where
  "square_trace = editor0
     \<lparr>creating := True, mode := 2, latLngs := [(10, 10), (50, 10), (50, 50), (12, 48), (10, 50)]\<rparr>"

section \<open>Properties of setMode\<close>

lemma bit_test_nat:
  "(m AND (1::nat) \<noteq> 0) = bit m 0" "(m AND (2::nat) \<noteq> 0) = bit m 1"
  "(m AND (4::nat) \<noteq> 0) = bit m 2" "(m AND (8::nat) \<noteq> 0) = bit m 3"
  using and_exp_eq_0_iff_not_bit[of m 0] and_exp_eq_0_iff_not_bit[of m 1]
    and_exp_eq_0_iff_not_bit[of m 2] and_exp_eq_0_iff_not_bit[of m 3]
  by simp_all

lemma map_obj_notifyBoundaries [simp]: "map_obj (notifyBoundaries s) = map_obj s"
  by (simp add: notifyBoundaries_def)

lemma defineClasses_member:
  "c \<in> defineClasses m cl \<longleftrightarrow>
     (if c = ''mode-view'' then bit m 0
      else if c = ''mode-create'' then bit m 1
      else if c = ''mode-edit'' then bit m 2
      else if c = ''mode-delete'' then bit m 3
      else c \<in> cl)"
  unfolding defineClasses_def Let_def MODES_VIEW_def MODES_CREATE_def MODES_EDIT_def
    MODES_DELETE_def bit_test_nat
  by (cases "bit m 0"; cases "bit m 1"; cases "bit m 2"; cases "bit m 3";
      simp del: One_nat_def)

lemma setMode_map:
  "map_obj s = Some mp \<Longrightarrow>
   map_obj (setMode m s) =
     Some (mp\<lparr>dragging := \<not> bit m 1, touchZoom := \<not> bit m 1, doubleClickZoom := \<not> bit m 1,
              scrollWheelZoom := \<not> bit m 1, classList := defineClasses m (classList mp)\<rparr>)"
  unfolding setMode_def Let_def MODES_CREATE_def bit_test_nat
  by (simp del: One_nat_def)

text \<open>
  Claim C3. On an editor that is attached to a map, \<open>setMode m\<close> leaves the container with
  exactly the indicator classes of the bits of \<open>m\<close> (bit 0 is VIEW, bit 1 CREATE, bit 2 EDIT,
  bit 3 DELETE), whatever indicators it had before, and with its other classes untouched;
  and each of the four handlers (dragging, touch zoom, double-click zoom, scroll-wheel zoom)
  is enabled exactly when the CREATE bit is not set.
\<close>

theorem setMode_classes_and_permissions:
  assumes "map_obj s = Some mp"
  shows "\<exists>mp'. map_obj (setMode m s) = Some mp' \<and>
           (''mode-view'' \<in> classList mp' \<longleftrightarrow> bit m 0) \<and>
           (''mode-create'' \<in> classList mp' \<longleftrightarrow> bit m 1) \<and>
           (''mode-edit'' \<in> classList mp' \<longleftrightarrow> bit m 2) \<and>
           (''mode-delete'' \<in> classList mp' \<longleftrightarrow> bit m 3) \<and>
           (\<forall>c. c \<notin> {''mode-view'', ''mode-create'', ''mode-edit'', ''mode-delete''} \<longrightarrow>
                  (c \<in> classList mp' \<longleftrightarrow> c \<in> classList mp)) \<and>
           (dragging mp' \<longleftrightarrow> \<not> bit m 1) \<and> (touchZoom mp' \<longleftrightarrow> \<not> bit m 1) \<and>
           (doubleClickZoom mp' \<longleftrightarrow> \<not> bit m 1) \<and> (scrollWheelZoom mp' \<longleftrightarrow> \<not> bit m 1)"
  using setMode_map[OF assms, of m] by (simp add: defineClasses_member del: One_nat_def)

theorem setMode_classes_and_permissions_witness:
  "map_obj editor0 = Some map0 \<and>
   (\<exists>mp'. map_obj (setMode 6 editor0) = Some mp' \<and>
      ''mode-view'' \<notin> classList mp' \<and> ''mode-create'' \<in> classList mp' \<and>
      ''mode-edit'' \<in> classList mp' \<and> ''mode-delete'' \<notin> classList mp' \<and>
      ''leaflet-container'' \<in> classList mp' \<and>
      \<not> dragging mp' \<and> \<not> touchZoom mp' \<and> \<not> doubleClickZoom mp' \<and> \<not> scrollWheelZoom mp')"
proof -
  have h: "map_obj editor0 = Some map0" by (simp add: editor0_def)
  have b: "\<not> bit (6::nat) 0" "bit (6::nat) 1" "bit (6::nat) 2" "\<not> bit (6::nat) 3"
    by (simp_all add: bit_iff_odd)
  have c: "''leaflet-container'' \<in> classList map0" by (simp add: map0_def)
  from setMode_classes_and_permissions[OF h, of 6] b c h show ?thesis
    by (elim exE conjE, intro conjI exI) (assumption | simp)+
qed

section \<open>Properties of createMouseUp on a short trace\<close>

text \<open>
  Claim C6. When the trace holds fewer than three points, \<open>_createMouseUp\<close> returns
  without an error and changes nothing but the \<open>creating\<close> flag: no polygon is created,
  no edge is added and \<open>markersFn\<close> is not called. The same holds of the handler of
  \<open>mouseup\<close>, \<open>mouseout\<close> and \<open>mouseleave\<close> when no edge is being dragged.
\<close>

theorem createMouseUp_short_trace:
  assumes "length (latLngs s) < 3"
  shows "createMouseUp env s = Return () (s\<lparr>creating := False\<rparr>) \<and>
         (movingEdge s = None \<longrightarrow>
            onMouseUpAndMouseLeave env s = Return () (s\<lparr>creating := False\<rparr>))"
  using assms by (simp add: createMouseUp_def onMouseUpAndMouseLeave_def Let_def)

theorem createMouseUp_short_trace_witness:
  "length (latLngs short_trace) < 3 \<and> movingEdge short_trace = None \<and>
   createMouseUp leaflet_exact short_trace = Return () (short_trace\<lparr>creating := False\<rparr>) \<and>
   onMouseUpAndMouseLeave leaflet_exact short_trace =
     Return () (short_trace\<lparr>creating := False\<rparr>) \<and>
   edges (short_trace\<lparr>creating := False\<rparr>) = [] \<and>
   markersFn_calls (short_trace\<lparr>creating := False\<rparr>) = []"
proof -
  have h: "length (latLngs short_trace) < 3" by (simp add: short_trace_def)
  have m: "movingEdge short_trace = None" by (simp add: short_trace_def editor0_def)
  from createMouseUp_short_trace[OF h, of leaflet_exact] h m show ?thesis
    by (simp add: short_trace_def editor0_def)
qed

section \<open>Properties of notifyBoundaries\<close>

lemma notify_loop_snoc: "notify_loop (es @ [e]) = notify_step (notify_loop es) e"
  by (simp add: notify_loop_def)

text \<open>After every round \<open>index\<close> is the last index of \<open>latLngs\<close> and \<open>last\<close> the
  identifier of the edge just seen: the writes of the loop are in range or append.\<close>

lemma notify_loop_index:
  "notify_loop es = (gs, lst, idx) \<Longrightarrow>
     idx = int (length gs) - 1 \<and>
     lst = (if es = [] then None else Some (e_polygonId (last es))) \<and>
     (es \<noteq> [] \<longrightarrow> gs \<noteq> [])"
proof (induction es arbitrary: gs lst idx rule: rev_induct)
  case Nil
  then show ?case by (simp add: notify_loop_def)
next
  case (snoc e es)
  obtain gs0 lst0 idx0 where p: "notify_loop es = (gs0, lst0, idx0)"
    by (cases "notify_loop es") auto
  from snoc.IH[OF p] have i: "idx0 = int (length gs0) - 1"
    and l: "lst0 = (if es = [] then None else Some (e_polygonId (last es)))"
    and n: "es \<noteq> [] \<longrightarrow> gs0 \<noteq> []" by auto
  from snoc.prems p have r: "notify_step (gs0, lst0, idx0) e = (gs, lst, idx)"
    by (simp add: notify_loop_snoc)
  show ?case
  proof (cases "Some (e_polygonId e) \<noteq> lst0")
    case True
    with r i show ?thesis
      by (auto simp: notify_step_def Let_def array_defined_def array_set_def array_push_at_def)
  next
    case False
    with l have "es \<noteq> []" by (auto split: if_splits)
    with n have "gs0 \<noteq> []" by simp
    with False r i show ?thesis
      by (auto simp: notify_step_def Let_def array_defined_def array_set_def array_push_at_def)
  qed
qed

lemma update_last:
  "xs \<noteq> [] \<Longrightarrow>
   xs[length xs - Suc 0 := xs ! (length xs - Suc 0) @ [v] ] = butlast xs @ [last xs @ [v] ]"
  by (cases xs rule: rev_cases) (simp_all add: nth_append)

lemma boundaries_Nil: "boundaries [] = []"
  by (simp add: boundaries_def notify_loop_def)

lemma boundaries_snoc:
  "boundaries (es @ [e]) =
     (if es = [] \<or> e_polygonId (last es) \<noteq> e_polygonId e
      then boundaries es @ [ [e_latlng e] ]
      else butlast (boundaries es) @ [last (boundaries es) @ [e_latlng e] ])"
proof -
  obtain gs0 lst0 idx0 where p: "notify_loop es = (gs0, lst0, idx0)"
    by (cases "notify_loop es") auto
  from notify_loop_index[OF p] have i: "idx0 = int (length gs0) - 1"
    and l: "lst0 = (if es = [] then None else Some (e_polygonId (last es)))"
    and n: "es \<noteq> [] \<longrightarrow> gs0 \<noteq> []" by auto
  show ?thesis
  proof (cases "es = [] \<or> e_polygonId (last es) \<noteq> e_polygonId e")
    case True
    with l have "Some (e_polygonId e) \<noteq> lst0" by auto
    with True p i show ?thesis
      by (auto simp: boundaries_def notify_loop_snoc notify_step_def Let_def
          array_defined_def array_set_def array_push_at_def nth_append)
  next
    case False
    with l n have s: "Some (e_polygonId e) = lst0" and g: "gs0 \<noteq> []" by auto
    from g have "nat (int (length gs0) - 1) = length gs0 - Suc 0" by (cases gs0) auto
    with False p i s g show ?thesis
      by (simp add: boundaries_def notify_loop_snoc notify_step_def Let_def
          array_defined_def array_push_at_def update_last)
  qed
qed

lemma remdups_adj_snoc:
  "remdups_adj (xs @ [x]) =
     (if xs = [] \<or> last xs \<noteq> x then remdups_adj xs @ [x] else remdups_adj xs)"
  by (cases xs rule: rev_cases) (auto simp: remdups_adj_append_two)

lemma remdups_adj_distinct_remdups:
  "distinct (remdups_adj xs) \<Longrightarrow> remdups_adj xs = remdups xs"
  by (induction xs rule: remdups_adj.induct) (auto split: if_splits)

lemma handles_of_absent: "i \<notin> set (map e_polygonId es) \<Longrightarrow> handles_of i es = []"
  by (induction es) (auto simp: handles_of_def)

text \<open>When the handles of every shape stand together, the loop yields one group for each
  run, holding the positions of the handles of that shape in array order.\<close>

lemma boundaries_runs:
  "contiguous es \<Longrightarrow>
   boundaries es = map (\<lambda>i. map e_latlng (handles_of i es)) (remdups_adj (map e_polygonId es))"
proof (induction es rule: rev_induct)
  case Nil
  then show ?case by (simp add: boundaries_Nil)
next
  case (snoc e es)
  let ?ids = "map e_polygonId es"
  let ?R = "remdups_adj ?ids"
  from snoc.prems have d: "distinct (remdups_adj (?ids @ [e_polygonId e]))"
    by (simp add: contiguous_def)
  show ?case
  proof (cases "es = [] \<or> e_polygonId (last es) \<noteq> e_polygonId e")
    case True
    then have c: "?ids = [] \<or> last ?ids \<noteq> e_polygonId e" by (auto simp: last_map)
    with d have dR: "distinct ?R" and fresh: "e_polygonId e \<notin> set ?ids"
      by (auto simp: remdups_adj_snoc)
    from dR have "contiguous es" by (simp add: contiguous_def)
    from snoc.IH[OF this] have ih: "boundaries es = map (\<lambda>i. map e_latlng (handles_of i es)) ?R" .
    have same: "\<And>i. i \<in> set ?R \<Longrightarrow> handles_of i (es @ [e]) = handles_of i es"
      using fresh by (force simp: handles_of_def)
    have new: "handles_of (e_polygonId e) (es @ [e]) = [e]"
      using handles_of_absent[OF fresh] by (simp add: handles_of_def)
    from c have R': "remdups_adj (?ids @ [e_polygonId e]) = ?R @ [e_polygonId e]"
      by (simp add: remdups_adj_snoc)
    have old: "map (\<lambda>i. map e_latlng (handles_of i (es @ [e]))) ?R =
               map (\<lambda>i. map e_latlng (handles_of i es)) ?R"
      by (rule map_cong) (simp_all add: same)
    have "boundaries (es @ [e]) = boundaries es @ [ [e_latlng e] ]"
      using True by (simp add: boundaries_snoc)
    also have "\<dots> = map (\<lambda>i. map e_latlng (handles_of i (es @ [e]))) (?R @ [e_polygonId e])"
      by (simp only: map_append old ih list.map new)
    finally show ?thesis by (simp add: R')
  next
    case False
    then have ne: "es \<noteq> []" and l: "e_polygonId (last es) = e_polygonId e" by auto
    then have c: "?ids \<noteq> []" "last ?ids = e_polygonId e" by (auto simp: last_map)
    with d have dR: "distinct ?R" and R': "remdups_adj (?ids @ [e_polygonId e]) = ?R"
      by (auto simp: remdups_adj_snoc)
    from dR have "contiguous es" by (simp add: contiguous_def)
    from snoc.IH[OF this] have ih: "boundaries es = map (\<lambda>i. map e_latlng (handles_of i es)) ?R" .
    from c have Rne: "?R \<noteq> []" and lastR: "last ?R = e_polygonId e"
      by (auto simp: last_remdups_adj)
    then obtain R0 where R: "?R = R0 @ [e_polygonId e]"
      by (cases ?R rule: rev_cases) auto
    with dR have notin: "e_polygonId e \<notin> set R0" by auto
    have same: "\<And>i. i \<in> set R0 \<Longrightarrow> handles_of i (es @ [e]) = handles_of i es"
      using notin by (auto simp: handles_of_def)
    have new: "handles_of (e_polygonId e) (es @ [e]) = handles_of (e_polygonId e) es @ [e]"
      by (simp add: handles_of_def)
    have old: "map (\<lambda>i. map e_latlng (handles_of i (es @ [e]))) R0 =
               map (\<lambda>i. map e_latlng (handles_of i es)) R0"
      by (rule map_cong) (simp_all add: same)
    have "boundaries (es @ [e]) = butlast (boundaries es) @ [last (boundaries es) @ [e_latlng e] ]"
      using False by (simp add: boundaries_snoc)
    also have "\<dots> = map (\<lambda>i. map e_latlng (handles_of i es)) R0 @
                     [map e_latlng (handles_of (e_polygonId e) es) @ [e_latlng e] ]"
      by (simp add: ih R)
    also have "\<dots> = map (\<lambda>i. map e_latlng (handles_of i (es @ [e]))) (R0 @ [e_polygonId e])"
      by (simp only: map_append old list.map new)
    finally show ?thesis by (simp add: R' R)
  qed
qed

text \<open>
  Claim C2, as amended. When the handles of every shape stand together in \<open>this.edges\<close>
  and in the order of their vertex indices, \<open>notifyBoundaries\<close> calls \<open>markersFn\<close> with
  one group for each distinct shape identifier among the live handles, and each group
  holds the positions of the handles of that shape in the order of their vertex indices.
\<close>

theorem notifyBoundaries_groups:
  assumes "contiguous (live_edges s)" and "index_ordered (live_edges s)"
  shows "markersFn_calls (notifyBoundaries s) =
           markersFn_calls s @
             [map (\<lambda>i. map e_latlng (sort_key e_index (handles_of i (live_edges s))))
                (remdups (map e_polygonId (live_edges s)))]"
proof -
  let ?es = "live_edges s"
  from assms(1) have r: "remdups_adj (map e_polygonId ?es) = remdups (map e_polygonId ?es)"
    by (simp add: contiguous_def remdups_adj_distinct_remdups)
  have "map (\<lambda>i. map e_latlng (sort_key e_index (handles_of i ?es))) (remdups (map e_polygonId ?es))
      = map (\<lambda>i. map e_latlng (handles_of i ?es)) (remdups (map e_polygonId ?es))"
  proof (rule map_cong)
    fix i assume "i \<in> set (remdups (map e_polygonId ?es))"
    with assms(2) have "sorted (map e_index (handles_of i ?es))"
      by (auto simp: index_ordered_def)
    then show "map e_latlng (sort_key e_index (handles_of i ?es)) = map e_latlng (handles_of i ?es)"
      by (simp add: sort_key_id_if_sorted)
  qed simp
  with boundaries_runs[OF assms(1)] r show ?thesis
    by (simp add: notifyBoundaries_def live_edges_def)
qed

theorem notifyBoundaries_groups_witness:
  "contiguous (live_edges two_shapes) \<and> index_ordered (live_edges two_shapes) \<and>
   markersFn_calls (notifyBoundaries two_shapes) =
     [ [ [(10, 10), (50, 10), (50, 50)], [(70, 70), (90, 70)] ] ]"
proof -
  have es: "live_edges two_shapes =
     [handle (10, 10) 1 0 3, handle (50, 10) 1 1 3, handle (50, 50) 1 2 3,
      handle (70, 70) 5 0 2, handle (90, 70) 5 1 2]"
    by (simp add: live_edges_def two_shapes_def)
  have c: "contiguous (live_edges two_shapes)"
    by (simp add: es contiguous_def handle_def)
  have o: "index_ordered (live_edges two_shapes)"
    by (simp add: es index_ordered_def handles_of_def handle_def)
  have n: "markersFn_calls two_shapes = []"
    by (simp add: two_shapes_def editor0_def)
  from notifyBoundaries_groups[OF c o] c o show ?thesis
    by (simp add: es n handles_of_def handle_def)
qed

text \<open>
  Claim C2, as stated, fails when the handles of a shape do not stand together: the loop
  starts a new group whenever the identifier differs from the one before, so the array
  of identifiers 1, 5, 1 gives three groups for two shapes.
\<close>

theorem notifyBoundaries_interleaved:
  "markersFn_calls (notifyBoundaries interleaved) = [ [ [(10, 10)], [(70, 70)], [(50, 10)] ] ] \<and>
   map e_polygonId (live_edges interleaved) = [1, 5, 1]"
  by (simp add: notifyBoundaries_def interleaved_def two_shapes_def editor0_def live_edges_def
      handle_def boundaries_def notify_loop_def notify_step_def array_defined_def
      array_set_def array_push_at_def Let_def)

section \<open>Properties of destroyPolygon and clearPolygons\<close>

text \<open>The filter keeps the edges of the other polygons, in order, and removes the icon of
  every edge of this one, once for each time it stands in the array.\<close>

lemma remove_edges_kept_gen:
  "(\<And>r. e_polygon (ms' r) = e_polygon (ms r)) \<Longrightarrow>
   fst (remove_edges p es ms') = filter (\<lambda>r. e_polygon (ms r) \<noteq> p) es"
proof (induction es arbitrary: ms')
  case Nil
  then show ?case by simp
next
  case (Cons e es)
  show ?case
  proof (cases "e_polygon (ms e) \<noteq> p")
    case True
    with Cons.prems Cons.IH[of ms'] show ?thesis
      by (simp add: case_prod_beta)
  next
    case False
    let ?ms = "ms'(e := (ms' e)\<lparr>e_icon_removals := Suc (e_icon_removals (ms' e))\<rparr>)"
    have ih: "fst (remove_edges p es ?ms) = filter (\<lambda>r. e_polygon (ms r) \<noteq> p) es"
      by (rule Cons.IH) (simp add: Cons.prems)
    show ?thesis using False Cons.prems by (simp add: ih)
  qed
qed

lemma remove_edges_kept:
  "fst (remove_edges p es ms) = filter (\<lambda>r. e_polygon (ms r) \<noteq> p) es"
  by (rule remove_edges_kept_gen) simp

lemma remove_edges_store:
  "snd (remove_edges p es ms) r =
     (ms r)\<lparr>e_icon_removals := e_icon_removals (ms r) +
        (if e_polygon (ms r) = p then count_list es r else 0)\<rparr>"
proof (induction es arbitrary: ms)
  case Nil
  then show ?case by simp
next
  case (Cons e es)
  show ?case
  proof (cases "e_polygon (ms e) \<noteq> p")
    case True
    with Cons.IH[of ms] show ?thesis by (auto simp: case_prod_beta)
  next
    case False
    with Cons.IH show ?thesis by simp
  qed
qed

lemma remove_edges_none:
  "\<forall>r \<in> set es. e_polygon (ms r) \<noteq> p \<Longrightarrow> remove_edges p es ms = (es, ms)"
  by (induction es) auto

lemma edges_destroyPolygon:
  "edges (snd (destroyPolygon p s)) = filter (\<lambda>r. e_polygon (markers s r) \<noteq> p) (edges s)"
  using remove_edges_kept[of p "edges s" "markers s"]
  by (simp add: destroyPolygon_def Let_def notifyBoundaries_def case_prod_beta)

lemma markers_destroyPolygon:
  "markers (snd (destroyPolygon p s)) = snd (remove_edges p (edges s) (markers s))"
  by (simp add: destroyPolygon_def Let_def notifyBoundaries_def case_prod_beta)

text \<open>Every \<open>destroyPolygon\<close> calls \<open>markersFn\<close> once, so \<open>clearPolygons\<close> calls it once
  for every edge and once more.\<close>

lemma calls_destroyPolygon:
  "length (markersFn_calls (snd (destroyPolygon p s))) = length (markersFn_calls s) + 1"
  by (simp add: destroyPolygon_def Let_def notifyBoundaries_def case_prod_beta)

lemma calls_destroy_all:
  "length (markersFn_calls
      (foldl (\<lambda>s edge. snd (destroyPolygon (e_polygon (markers s edge)) s)) s es)) =
   length (markersFn_calls s) + length es"
  by (induction es arbitrary: s) (simp_all add: calls_destroyPolygon)

lemma calls_clearPolygons:
  "length (markersFn_calls (clearPolygons s)) =
     length (markersFn_calls s) + length (edges s) + 1"
  by (simp add: clearPolygons_def notifyBoundaries_def calls_destroy_all)

text \<open>
  Claim C5, as amended. \<open>destroyPolygon\<close> removes from \<open>this.edges\<close> every handle whose
  polygon is the one given, keeps the others in order, and removes the icon of each handle
  it drops; a second call right after it leaves \<open>this.edges\<close> and the handles as they
  are. Neither call returns a value.
\<close>

theorem destroyPolygon_twice:
  "edges (snd (destroyPolygon p s)) = filter (\<lambda>r. e_polygon (markers s r) \<noteq> p) (edges s) \<and>
   (\<forall>r \<in> set (edges (snd (destroyPolygon p s))).
        e_polygon (markers (snd (destroyPolygon p s)) r) \<noteq> p) \<and>
   (\<forall>r \<in> set (edges s). e_polygon (markers s r) = p \<longrightarrow>
        e_icon_removals (markers s r) < e_icon_removals (markers (snd (destroyPolygon p s)) r)) \<and>
   edges (snd (destroyPolygon p (snd (destroyPolygon p s)))) = edges (snd (destroyPolygon p s)) \<and>
   markers (snd (destroyPolygon p (snd (destroyPolygon p s)))) =
     markers (snd (destroyPolygon p s)) \<and>
   fst (destroyPolygon p s) = Undefined \<and>
   fst (destroyPolygon p (snd (destroyPolygon p s))) = Undefined"
proof -
  let ?s1 = "snd (destroyPolygon p s)"
  have pol: "\<And>r. e_polygon (markers ?s1 r) = e_polygon (markers s r)"
    by (simp add: markers_destroyPolygon remove_edges_store)
  have e1: "edges ?s1 = filter (\<lambda>r. e_polygon (markers s r) \<noteq> p) (edges s)"
    by (rule edges_destroyPolygon)
  have none: "\<forall>r \<in> set (edges ?s1). e_polygon (markers ?s1 r) \<noteq> p"
    by (simp add: pol e1)
  have icon: "\<forall>r \<in> set (edges s). e_polygon (markers s r) = p \<longrightarrow>
        e_icon_removals (markers s r) < e_icon_removals (markers ?s1 r)"
  proof (intro ballI impI)
    fix r assume "r \<in> set (edges s)" and "e_polygon (markers s r) = p"
    moreover from this have "0 < count_list (edges s) r"
      by (metis count_list_0_iff not_gr_zero)
    ultimately show "e_icon_removals (markers s r) < e_icon_removals (markers ?s1 r)"
      by (simp add: markers_destroyPolygon remove_edges_store)
  qed
  have e2: "edges (snd (destroyPolygon p ?s1)) = edges ?s1"
    using none by (simp add: edges_destroyPolygon[of p ?s1] filter_id_conv)
  have m2: "markers (snd (destroyPolygon p ?s1)) = markers ?s1"
    using remove_edges_none[OF none] by (simp add: markers_destroyPolygon[of p ?s1])
  have u: "fst (destroyPolygon p s) = Undefined" "fst (destroyPolygon p ?s1) = Undefined"
    by (simp_all add: destroyPolygon_def Let_def case_prod_beta)
  from e1 none icon e2 m2 u show ?thesis by blast
qed

theorem destroyPolygon_twice_witness:
  "edges two_shapes = [2, 3, 4, 6, 7] \<and>
   edges (snd (destroyPolygon 1 two_shapes)) = [6, 7] \<and>
   edges (snd (destroyPolygon 1 (snd (destroyPolygon 1 two_shapes)))) = [6, 7] \<and>
   e_icon_removals (markers two_shapes 3) = 0 \<and>
   0 < e_icon_removals (markers (snd (destroyPolygon 1 two_shapes)) 3)"
proof -
  have e: "edges two_shapes = [2, 3, 4, 6, 7]" by (simp add: two_shapes_def)
  have f: "filter (\<lambda>r. e_polygon (markers two_shapes r) \<noteq> 1) [2, 3, 4, 6, 7] = [6, 7]"
    by (simp add: two_shapes_def handle_def)
  have p: "e_polygon (markers two_shapes 3) = 1" "e_icon_removals (markers two_shapes 3) = 0"
    by (simp_all add: two_shapes_def handle_def)
  from destroyPolygon_twice[of 1 two_shapes] e f p show ?thesis by simp
qed

text \<open>
  Claim C5, as stated, fails: the first \<open>destroyPolygon\<close> of a polygon with three handles
  removes them and does not report \<open>true\<close>; the value of the call is \<open>undefined\<close>.
\<close>

theorem destroyPolygon_returns_nothing:
  "fst (destroyPolygon 1 two_shapes) \<noteq> Boolean True \<and>
   edges two_shapes = [2, 3, 4, 6, 7] \<and> edges (snd (destroyPolygon 1 two_shapes)) = [6, 7]"
  by (simp add: edges_destroyPolygon two_shapes_def handle_def)
     (simp add: destroyPolygon_def Let_def case_prod_beta)

text \<open>
  Claim C4 at an editor with a polygon of three handles and a polygon of two:
  \<open>clearPolygons\<close> calls \<open>destroyPolygon\<close> once for every handle, so the container of
  the first polygon is removed three times and that of the second twice, and \<open>markersFn\<close>
  is called six times, five of them before the call at the end.
\<close>

theorem clearPolygons_notifies_per_edge:
  "edges two_shapes = [2, 3, 4, 6, 7] \<and>
   markersFn_calls two_shapes = [] \<and>
   markersFn_calls (clearPolygons two_shapes) =
     [ [ [(70, 70), (90, 70)] ], [ [(70, 70), (90, 70)] ], [ [(70, 70), (90, 70)] ], [], [], [] ] \<and>
   p_container_removals (polygons (clearPolygons two_shapes) 1) = 3 \<and>
   p_container_removals (polygons (clearPolygons two_shapes) 5) = 2"
  by (simp add: clearPolygons_def destroyPolygon_def notifyBoundaries_def two_shapes_def
      editor0_def handle_def boundaries_def notify_loop_def notify_step_def array_defined_def
      array_set_def array_push_at_def Let_def)

section \<open>Properties of updatePolygonEdge\<close>

text \<open>
  Claim C9, as amended. On an editor attached to a map (the only one on which a handle
  can be grabbed), \<open>updatePolygonEdge\<close> returns normally; the marker it is given gets the
  projection of the new position as its coordinate and every other marker is left as it
  is, as is \<open>this.edges\<close>; the coordinates of the polygon of that marker become the
  coordinates of all the handles of that polygon, in the order of \<open>this.edges\<close>, and its
  ring is the one rendered from them; that polygon is redrawn twice, once at the end of
  \<open>setLatLngs\<close> and once by the \<open>redraw()\<close> that follows, and no other polygon is touched.
\<close>

theorem updatePolygonEdge_frame:
  assumes "map_obj s = Some mp"
  shows "\<exists>s'. updatePolygonEdge env edge posX posY s = Return () s' \<and>
           markers s' edge =
             (markers s edge)\<lparr>e_latlng := containerPointToLatLng env (posX, posY)\<rparr> \<and>
           (\<forall>r. r \<noteq> edge \<longrightarrow> markers s' r = markers s r) \<and>
           edges s' = edges s \<and>
           p_latlngs (polygons s' (e_polygon (markers s edge))) =
             map (\<lambda>r. e_latlng (markers s' r))
               (filter (\<lambda>r. e_polygon (markers s r) = e_polygon (markers s edge)) (edges s)) \<and>
           p_parts (polygons s' (e_polygon (markers s edge))) =
             render env (p_latlngs (polygons s' (e_polygon (markers s edge)))) \<and>
           p_redraws (polygons s' (e_polygon (markers s edge))) =
             p_redraws (polygons s (e_polygon (markers s edge))) + 2 \<and>
           (\<forall>q. q \<noteq> e_polygon (markers s edge) \<longrightarrow> polygons s' q = polygons s q)"
proof -
  have same: "(\<lambda>x. x \<noteq> edge \<longrightarrow> e_polygon (markers s x) = e_polygon (markers s edge)) =
              (\<lambda>r. e_polygon (markers s r) = e_polygon (markers s edge))"
    by auto
  from assms show ?thesis
    by (simp add: updatePolygonEdge_def Let_def setLatLngs_def redraw_def same)
qed

theorem updatePolygonEdge_frame_witness:
  "map_obj two_shapes = Some map0 \<and>
   (\<exists>s'. updatePolygonEdge leaflet07 3 55 15 two_shapes = Return () s' \<and>
      e_latlng (markers s' 3) = (55, 15) \<and>
      e_latlng (markers s' 2) = (10, 10) \<and> e_latlng (markers s' 4) = (50, 50) \<and>
      e_latlng (markers s' 6) = (70, 70) \<and>
      edges s' = [2, 3, 4, 6, 7] \<and>
      p_latlngs (polygons s' 1) = [(10, 10), (55, 15), (50, 50)] \<and>
      p_redraws (polygons s' 1) = 2 \<and> p_redraws (polygons s' 5) = 0)"
proof -
  have h: "map_obj two_shapes = Some map0" by (simp add: two_shapes_def editor0_def)
  have p: "e_polygon (markers two_shapes 3) = 1" by (simp add: two_shapes_def handle_def)
  from updatePolygonEdge_frame[OF h, of leaflet07 3 55 15]
  obtain s' where r: "updatePolygonEdge leaflet07 3 55 15 two_shapes = Return () s'"
    and m: "markers s' 3 =
             (markers two_shapes 3)\<lparr>e_latlng := containerPointToLatLng leaflet07 (55, 15)\<rparr>"
    and o: "\<forall>r. r \<noteq> 3 \<longrightarrow> markers s' r = markers two_shapes r"
    and e: "edges s' = edges two_shapes"
    and l: "p_latlngs (polygons s' (e_polygon (markers two_shapes 3))) =
             map (\<lambda>r. e_latlng (markers s' r))
               (filter (\<lambda>r. e_polygon (markers two_shapes r) = e_polygon (markers two_shapes 3))
                  (edges two_shapes))"
    and d: "p_redraws (polygons s' (e_polygon (markers two_shapes 3))) =
             p_redraws (polygons two_shapes (e_polygon (markers two_shapes 3))) + 2"
    and q: "\<forall>q. q \<noteq> e_polygon (markers two_shapes 3) \<longrightarrow> polygons s' q = polygons two_shapes q"
    by blast
  have m3: "e_latlng (markers s' 3) = (55, 15)"
    using m by (simp add: leaflet07_def leaflet_exact_def)
  have o2: "markers s' 2 = markers two_shapes 2" "markers s' 4 = markers two_shapes 4"
    "markers s' 6 = markers two_shapes 6" using o by simp_all
  have l1: "p_latlngs (polygons s' 1) = [(10, 10), (55, 15), (50, 50)]"
    using l m3 o2 by (simp add: p) (simp add: two_shapes_def handle_def)
  have d1: "p_redraws (polygons s' 1) = 2" using d
    by (simp add: p) (simp add: two_shapes_def editor0_def)
  have d5: "p_redraws (polygons s' 5) = 0" using q
    by (simp add: p) (simp add: two_shapes_def editor0_def)
  from h r m3 o2 e l1 d1 d5 show ?thesis
    by (simp add: two_shapes_def handle_def)
qed

text \<open>
  Claim C9, as stated, fails in the number of redraws: dragging a handle of the polygon of
  three handles, which has not been redrawn before, redraws it twice, not once.
\<close>

theorem updatePolygonEdge_redraws_twice:
  "p_redraws (polygons two_shapes 1) = 0 \<and>
   thrown (updatePolygonEdge leaflet07 3 55 15 two_shapes) = None \<and>
   p_redraws (polygons (final (updatePolygonEdge leaflet07 3 55 15 two_shapes)) 1) = 2"
  by (simp add: updatePolygonEdge_def Let_def setLatLngs_def redraw_def two_shapes_def
      editor0_def handle_def)

section \<open>Properties of setMarkers\<close>

text \<open>The loop fails exactly when some entry is no \<open>L.LatLng\<close>, and it has then added
  the markers of the entries before the first such entry.\<close>

lemma addMarkers_result:
  "addMarkers icon ms acc =
     (if NotLatLng \<in> set ms
      then Some (throwException ''Supplied markers must be instances of L.LatLng'')
      else None,
      acc @ map (\<lambda>g. (g, icon)) (valid_prefix ms))"
  by (induction icon ms acc rule: addMarkers.induct) simp_all

lemma setMarkers_bad_icon:
  "setMarkers ms NotDivIcon s =
     Throw (throwException ''Second argument must be an instance of L.DivIcon'') s"
  by (simp add: setMarkers_def)

text \<open>With a valid or absent icon, on a map: the state \<open>setMarkers\<close> leaves, whether it
  returns or throws, and what it throws.\<close>

lemma setMarkers_attached:
  assumes "map_obj s = Some mp" and "divIcon \<noteq> NotDivIcon"
  shows "final (setMarkers ms divIcon s) =
           s\<lparr>map_obj := Some (mp\<lparr>layers := insert (lastId s + 1)
                                   (layers mp - {lg_id (markerLayer s)})\<rparr>),
             markerLayer := \<lparr>lg_id = lastId s + 1,
                             lg_markers = map (\<lambda>g. (g, icon_option divIcon))
                               (case ms of None \<Rightarrow> [] | Some l \<Rightarrow> valid_prefix l)\<rparr>,
             lastId := lastId s + 1\<rparr>"
    and "thrown (setMarkers ms divIcon s) =
           (if \<exists>l. ms = Some l \<and> NotLatLng \<in> set l
            then Some (throwException ''Supplied markers must be instances of L.LatLng'')
            else None)"
proof -
  have i: "(case divIcon of DivIcon i \<Rightarrow> Some i | _ \<Rightarrow> None) = icon_option divIcon"
    by (cases divIcon) simp_all
  have n: "(divIcon \<noteq> NoIcon \<and> \<not> instanceof_DivIcon divIcon) = False"
    using assms(2) by (cases divIcon) simp_all
  show "final (setMarkers ms divIcon s) =
           s\<lparr>map_obj := Some (mp\<lparr>layers := insert (lastId s + 1)
                                   (layers mp - {lg_id (markerLayer s)})\<rparr>),
             markerLayer := \<lparr>lg_id = lastId s + 1,
                             lg_markers = map (\<lambda>g. (g, icon_option divIcon))
                               (case ms of None \<Rightarrow> [] | Some l \<Rightarrow> valid_prefix l)\<rparr>,
             lastId := lastId s + 1\<rparr>"
    using assms(1)
    by (simp add: setMarkers_def n i Let_def addMarkers_result split: option.splits list.splits)
  show "thrown (setMarkers ms divIcon s) =
           (if \<exists>l. ms = Some l \<and> NotLatLng \<in> set l
            then Some (throwException ''Supplied markers must be instances of L.LatLng'')
            else None)"
    using assms(1)
    by (simp add: setMarkers_def n i Let_def addMarkers_result split: option.splits list.splits)
qed

text \<open>
  Claim C7, as amended. On an editor attached to a map, \<open>setMarkers\<close> throws if and only
  if the second argument is given and is no \<open>L.DivIcon\<close>, or some entry of the marker
  list is no \<open>L.LatLng\<close>. Whether it throws or not, the editor stays attached, nothing
  but the marker layer, the layers of the map and the address counter has changed, and a
  following call with valid arguments returns normally.
\<close>

theorem setMarkers_raises_iff:
  assumes "map_obj s = Some mp"
  shows "(thrown (setMarkers ms divIcon s) \<noteq> None \<longleftrightarrow>
            divIcon = NotDivIcon \<or> (\<exists>l. ms = Some l \<and> NotLatLng \<in> set l)) \<and>
         map_obj (final (setMarkers ms divIcon s)) \<noteq> None \<and>
         (final (setMarkers ms divIcon s))
            \<lparr>map_obj := map_obj s, markerLayer := markerLayer s, lastId := lastId s\<rparr> = s \<and>
         thrown (setMarkers (Some (map LatLng gs)) NoIcon (final (setMarkers ms divIcon s))) = None"
proof (cases "divIcon = NotDivIcon")
  case True
  have "\<And>l. NotLatLng \<notin> set (map LatLng gs)" by auto
  with True assms setMarkers_attached(2)[OF assms, of NoIcon "Some (map LatLng gs)"]
  show ?thesis by (simp add: setMarkers_bad_icon)
next
  case False
  let ?s' = "final (setMarkers ms divIcon s)"
  from setMarkers_attached(1)[OF assms False, of ms]
  have m: "map_obj ?s' \<noteq> None" and
    f: "?s'\<lparr>map_obj := map_obj s, markerLayer := markerLayer s, lastId := lastId s\<rparr> = s"
    by simp_all
  from m obtain mp' where m': "map_obj ?s' = Some mp'" by auto
  have "\<And>l. NotLatLng \<notin> set (map LatLng gs)" by auto
  with setMarkers_attached(2)[OF m', of NoIcon "Some (map LatLng gs)"]
  have u: "thrown (setMarkers (Some (map LatLng gs)) NoIcon ?s') = None" by simp
  from False setMarkers_attached(2)[OF assms False, of ms] m f u show ?thesis by simp
qed

theorem setMarkers_raises_iff_witness:
  "map_obj editor0 = Some map0 \<and>
   thrown (setMarkers (Some [LatLng (1, 1), NotLatLng]) NoIcon editor0) \<noteq> None \<and>
   thrown (setMarkers None NotDivIcon editor0) \<noteq> None \<and>
   thrown (setMarkers (Some [LatLng (1, 1)]) (DivIcon ''pin'') editor0) = None \<and>
   thrown (setMarkers (Some [LatLng (2, 2)]) NoIcon
      (final (setMarkers (Some [LatLng (1, 1), NotLatLng]) NoIcon editor0))) = None"
proof -
  have h: "map_obj editor0 = Some map0" by (simp add: editor0_def)
  from setMarkers_raises_iff[OF h, of "Some [LatLng (1, 1), NotLatLng]" NoIcon "[(2, 2)]"]
    setMarkers_raises_iff[OF h, of None NotDivIcon "[]"]
    setMarkers_raises_iff[OF h, of "Some [LatLng (1, 1)]" "DivIcon ''pin''" "[]"] h
  show ?thesis by simp
qed

text \<open>
  Claim C7, as stated, fails on an editor that is not attached to a map: \<open>setMarkers\<close>
  with no icon and a list of one \<open>L.LatLng\<close> throws a TypeError, reading \<open>removeLayer\<close>
  from \<open>null\<close>.
\<close>

theorem setMarkers_detached_raises:
  "thrown (setMarkers (Some [LatLng (1, 1)]) NoIcon detached) = Some TypeError \<and>
   map_obj detached = None"
  by (simp add: setMarkers_def detached_def)

text \<open>
  Claim C10. A second argument that is no \<open>L.DivIcon\<close> makes \<open>setMarkers\<close> throw with
  the state untouched. When it throws for an entry that is no \<open>L.LatLng\<close>, the old marker
  layer has been taken off the map and a new one put on it, which holds the markers of the
  entries before the first invalid one; so, the old layer's address being one the counter
  has passed, the marker layer is not what it was.
\<close>

theorem setMarkers_error_after_reset:
  "setMarkers ms NotDivIcon s =
     Throw (throwException ''Second argument must be an instance of L.DivIcon'') s \<and>
   (setMarkers ms divIcon s =
      Throw (throwException ''Supplied markers must be instances of L.LatLng'') s' \<longrightarrow>
    (\<exists>mp l. map_obj s = Some mp \<and> ms = Some l \<and> NotLatLng \<in> set l \<and>
       map_obj s' = Some (mp\<lparr>layers := insert (lastId s + 1)
                                 (layers mp - {lg_id (markerLayer s)})\<rparr>) \<and>
       markerLayer s' = \<lparr>lg_id = lastId s + 1,
                          lg_markers = map (\<lambda>g. (g, icon_option divIcon)) (valid_prefix l)\<rparr> \<and>
       (lg_id (markerLayer s) \<le> lastId s \<longrightarrow>
          markerLayer s' \<noteq> markerLayer s \<and>
          lg_id (markerLayer s) \<notin> insert (lastId s + 1) (layers mp - {lg_id (markerLayer s)}))))"
proof (intro conjI impI)
  show "setMarkers ms NotDivIcon s =
     Throw (throwException ''Second argument must be an instance of L.DivIcon'') s"
    by (rule setMarkers_bad_icon)
next
  assume t: "setMarkers ms divIcon s =
      Throw (throwException ''Supplied markers must be instances of L.LatLng'') s'"
  have ne: "throwException ''Second argument must be an instance of L.DivIcon'' \<noteq>
            throwException ''Supplied markers must be instances of L.LatLng''"
    by (simp add: throwException_def)
  from t ne have i: "divIcon \<noteq> NotDivIcon"
    by (auto simp: setMarkers_bad_icon)
  have "map_obj s \<noteq> None"
  proof
    assume "map_obj s = None"
    with i have "setMarkers ms divIcon s = Throw TypeError s"
      by (cases divIcon) (simp_all add: setMarkers_def)
    with t show False by (simp add: throwException_def)
  qed
  then obtain mp where m: "map_obj s = Some mp" by auto
  from setMarkers_attached[OF m i, of ms] t
  have f: "s' = s\<lparr>map_obj := Some (mp\<lparr>layers := insert (lastId s + 1)
                                   (layers mp - {lg_id (markerLayer s)})\<rparr>),
             markerLayer := \<lparr>lg_id = lastId s + 1,
                             lg_markers = map (\<lambda>g. (g, icon_option divIcon))
                               (case ms of None \<Rightarrow> [] | Some l \<Rightarrow> valid_prefix l)\<rparr>,
             lastId := lastId s + 1\<rparr>"
    and "\<exists>l. ms = Some l \<and> NotLatLng \<in> set l"
    by (auto split: if_splits)
  then obtain l where l: "ms = Some l" "NotLatLng \<in> set l" by auto
  have "lg_id (markerLayer s) \<le> lastId s \<longrightarrow>
          markerLayer s' \<noteq> markerLayer s \<and>
          lg_id (markerLayer s) \<notin> insert (lastId s + 1) (layers mp - {lg_id (markerLayer s)})"
    by (auto simp: f dest: arg_cong[where f = lg_id])
  with m l f show "\<exists>mp l. map_obj s = Some mp \<and> ms = Some l \<and> NotLatLng \<in> set l \<and>
       map_obj s' = Some (mp\<lparr>layers := insert (lastId s + 1)
                                 (layers mp - {lg_id (markerLayer s)})\<rparr>) \<and>
       markerLayer s' = \<lparr>lg_id = lastId s + 1,
                          lg_markers = map (\<lambda>g. (g, icon_option divIcon)) (valid_prefix l)\<rparr> \<and>
       (lg_id (markerLayer s) \<le> lastId s \<longrightarrow>
          markerLayer s' \<noteq> markerLayer s \<and>
          lg_id (markerLayer s) \<notin> insert (lastId s + 1) (layers mp - {lg_id (markerLayer s)}))"
    by simp
qed

theorem setMarkers_error_after_reset_witness:
  "markerLayer with_markers = \<lparr>lg_id = 1, lg_markers = [((5, 5), None)]\<rparr> \<and>
   thrown (setMarkers (Some [LatLng (1, 1), NotLatLng, LatLng (2, 2)]) NoIcon with_markers) =
     Some (throwException ''Supplied markers must be instances of L.LatLng'') \<and>
   markerLayer (final (setMarkers (Some [LatLng (1, 1), NotLatLng, LatLng (2, 2)]) NoIcon
      with_markers)) = \<lparr>lg_id = 2, lg_markers = [((1, 1), None)]\<rparr> \<and>
   map_option layers (map_obj (final (setMarkers (Some [LatLng (1, 1), NotLatLng, LatLng (2, 2)])
      NoIcon with_markers))) = Some {2}"
proof -
  let ?ms = "Some [LatLng (1, 1), NotLatLng, LatLng (2, 2)] :: point marker_arg list option"
  obtain s' where t: "setMarkers ?ms NoIcon with_markers =
      Throw (throwException ''Supplied markers must be instances of L.LatLng'') s'"
    by (simp add: setMarkers_def with_markers_def editor0_def Let_def)
  from setMarkers_error_after_reset[of ?ms with_markers NoIcon s'] t
  obtain mp l where "map_obj with_markers = Some mp" "?ms = Some l"
    "map_obj s' = Some (mp\<lparr>layers := insert (lastId with_markers + 1)
                                 (layers mp - {lg_id (markerLayer with_markers)})\<rparr>)"
    "markerLayer s' = \<lparr>lg_id = lastId with_markers + 1,
                          lg_markers = map (\<lambda>g. (g, icon_option NoIcon)) (valid_prefix l)\<rparr>"
    by blast
  with t show ?thesis
    by (auto simp: with_markers_def editor0_def map0_def)
qed

section \<open>Properties of setHullAlgorithm\<close>

text \<open>
  Claim C8, as amended. For a string that is none of the two names, \<open>setHullAlgorithm\<close>
  (which cannot throw) leaves the options as they are, except that the empty string sets
  the algorithm to none. So when no algorithm was set, none is set afterwards, and
  finishing a trace applies no hull method: the polygon is built from \<open>this.latLngs\<close>.
\<close>

theorem setHullAlgorithm_unrecognized:
  assumes "n \<noteq> ''brian3kb/graham_scan_js''" and "n \<noteq> ''Wildhoney/ConcaveHull''"
  shows "setHullAlgorithm (Name n) opts =
           (if n = [] then opts\<lparr>hullAlgorithm := None\<rparr> else opts) \<and>
         (hullAlgorithm (options s) = None \<longrightarrow>
            hullAlgorithm (setHullAlgorithm (Name n) (options s)) = None \<and>
            applyHull env (s\<lparr>options := setHullAlgorithm (Name n) (options s)\<rparr>) =
              Inr (None, latLngs s))"
  using assms by (simp add: setHullAlgorithm_def hullAlgorithms_def applyHull_def)

theorem setHullAlgorithm_unrecognized_witness:
  "setHullAlgorithm (Name ''convex'') (options editor0) = options editor0 \<and>
   hullAlgorithm (options editor0) = None \<and>
   applyHull leaflet_exact (editor0\<lparr>options := setHullAlgorithm (Name ''convex'') (options editor0)\<rparr>)
     = Inr (None, [])"
proof -
  have a: "''convex'' \<noteq> ''brian3kb/graham_scan_js''" "''convex'' \<noteq> ''Wildhoney/ConcaveHull''"
    by simp_all
  have h: "hullAlgorithm (options editor0) = None" "latLngs editor0 = []"
    by (simp_all add: editor0_def)
  from setHullAlgorithm_unrecognized[OF a, of "options editor0" editor0 leaflet_exact] h
  show ?thesis by (simp add: applyHull_def)
qed

text \<open>
  Claim C8, as stated, fails when an algorithm is in force: after the Graham scan has been
  chosen, setting the unrecognized name \<open>convex\<close> leaves it chosen, and finishing a trace
  still applies it.
\<close>

theorem setHullAlgorithm_keeps_hull:
  "hullAlgorithm graham_options = Some Brian3kbGrahamScan \<and>
   hullAlgorithm (setHullAlgorithm (Name ''convex'') graham_options) = Some Brian3kbGrahamScan \<and>
   applyHull leaflet_exact
     (square_trace\<lparr>options := setHullAlgorithm (Name ''convex'') graham_options\<rparr>) =
     Inr (Some [(10, 10), (50, 10), (50, 50), (12, 48), (10, 50), (10, 10)],
          [(10, 10), (50, 10), (50, 50), (12, 48), (10, 50)])"
  by (simp add: graham_options_def setHullAlgorithm_def hullAlgorithms_def editor0_def
      applyHull_def brian3kbGrahamScan_def square_trace_def leaflet_exact_def)

section \<open>Properties of attachEdges, createPolygon and createMouseUp\<close>

lemma attach_step_fields [simp]:
  "polygons (attach_step env p n pt i s) = polygons s"
  "lastId (attach_step env p n pt i s) = Suc (lastId s)"
  "edges (attach_step env p n pt i s) = edges s @ [Suc (lastId s)]"
  "markers (attach_step env p n pt i s) = (markers s)(Suc (lastId s) :=
      \<lparr>e_latlng = layerPointToLatLng env pt, e_polygon = p, e_polygonId = p,
       e_index = i, e_length = n, e_icon_removals = 0\<rparr>)"
  "latLngs (attach_step env p n pt i s) = latLngs s"
  "options (attach_step env p n pt i s) = options s"
  "mode (attach_step env p n pt i s) = mode s"
  "markersFn_calls (attach_step env p n pt i s) = markersFn_calls s"
  "boundaryUpdateRequired (attach_step env p n pt i s) = boundaryUpdateRequired s"
  "svg (attach_step env p n pt i s) = svg s"
  "(map_obj (attach_step env p n pt i s) = None) = (map_obj s = None)"
  by (simp_all add: attach_step_def Let_def)

lemma attach_loop_fields [simp]:
  "polygons (attach_loop env p n pts i s) = polygons s"
  "lastId (attach_loop env p n pts i s) = lastId s + length pts"
  "latLngs (attach_loop env p n pts i s) = latLngs s"
  "options (attach_loop env p n pts i s) = options s"
  "mode (attach_loop env p n pts i s) = mode s"
  "markersFn_calls (attach_loop env p n pts i s) = markersFn_calls s"
  "boundaryUpdateRequired (attach_loop env p n pts i s) = boundaryUpdateRequired s"
  "svg (attach_loop env p n pts i s) = svg s"
  "(map_obj (attach_loop env p n pts i s) = None) = (map_obj s = None)"
  by (induction pts arbitrary: i s) simp_all

text \<open>The loop appends one new address for every point of the ring, and gives the marker
  at each of them the projection of its point and the index of the point.\<close>

lemma attach_loop_edges:
  "edges (attach_loop env p n pts i s) =
     edges s @ [Suc (lastId s) ..< Suc (lastId s) + length pts]"
proof (induction pts arbitrary: i s)
  case Nil
  then show ?case by simp
next
  case (Cons pt rest)
  have "[Suc (lastId s) ..< Suc (lastId s) + length (pt # rest)] =
        Suc (lastId s) # [Suc (Suc (lastId s)) ..< Suc (Suc (lastId s)) + length rest]"
    by (subst upt_rec) simp
  with Cons.IH[of "Suc i" "attach_step env p n pt i s"] show ?case by simp
qed

lemma attach_loop_old_markers:
  "r \<le> lastId s \<Longrightarrow> markers (attach_loop env p n pts i s) r = markers s r"
  by (induction pts arbitrary: i s) simp_all

lemma attach_loop_new_markers:
  "k < length pts \<Longrightarrow>
   markers (attach_loop env p n pts i s) (Suc (lastId s + k)) =
     \<lparr>e_latlng = layerPointToLatLng env (pts ! k), e_polygon = p, e_polygonId = p,
      e_index = i + k, e_length = n, e_icon_removals = 0\<rparr>"
proof (induction pts arbitrary: i s k)
  case Nil
  then show ?case by simp
next
  case (Cons pt rest)
  show ?case
  proof (cases k)
    case 0
    then show ?thesis by (simp add: attach_loop_old_markers)
  next
    case (Suc j)
    with Cons.prems have "j < length rest" by simp
    from Cons.IH[OF this, of "Suc i" "attach_step env p n pt i s"] Suc show ?thesis by simp
  qed
qed

lemma setMode_stores [simp]:
  "polygons (setMode m s) = polygons s" "edges (setMode m s) = edges s"
  "markers (setMode m s) = markers s" "latLngs (setMode m s) = latLngs s"
  "lastId (setMode m s) = lastId s"
  by (simp_all add: setMode_def Let_def notifyBoundaries_def split: option.splits)

text \<open>\<open>createPolygon\<close> on a map, when Leaflet has a ring for the polygon: the new polygon
  holds that ring, its \<open>_latlngs\<close> are the projections of the ring, and for every point
  of the ring a handle has been attached, with the projection and the index of the point.\<close>

lemma createPolygon_attached:
  assumes "map_obj s = Some mp" and "svg s = Some tr"
    and "render env (polygonLatLngs env gs) = Some ring"
  shows "\<exists>s'. createPolygon env gs s = Return (lastId s + 1) s' \<and>
           polygons s' = (polygons s)(lastId s + 1 :=
              \<lparr>p_latlngs = map (containerPointToLatLng env) ring,
               p_parts = Some ring, p_container_removals = 0, p_redraws = 0,
               p_onclick = False\<rparr>) \<and>
           edges s' = edges s @ [lastId s + 2 ..< lastId s + 2 + length ring] \<and>
           (\<forall>k < length ring.
              markers s' (lastId s + 2 + k) =
                new_edge env (lastId s + 1) (length ring) ring k) \<and>
           latLngs s' = latLngs s \<and> options s' = options s \<and> mode s' = mode s \<and>
           length (markersFn_calls s') = length (markersFn_calls s) + 1"
proof -
  have n: "markers (attach_loop env (Suc (lastId s)) (length ring) ring 0 s1)
              (Suc (Suc (lastId s + k))) =
              new_edge env (Suc (lastId s)) (length ring) ring k"
    if "lastId s1 = Suc (lastId s)" and "k < length ring" for s1 :: "'a freedraw" and k
    using attach_loop_new_markers[OF that(2), of env "Suc (lastId s)" "length ring" 0 s1] that(1)
    by (simp add: new_edge_def)
  from assms show ?thesis
    by (simp add: createPolygon_def destroyD3_def createD3_def attachEdges_def Let_def
        notifyBoundaries_def attach_loop_edges n)
qed

text \<open>When Leaflet has no ring for the polygon, \<open>attachEdges\<close> throws: the polygon is on
  the map by then, without a handle, and \<open>markersFn\<close> has not been called.\<close>

lemma createPolygon_no_ring:
  assumes "map_obj s = Some mp" and "svg s = Some tr"
    and "render env (polygonLatLngs env gs) = None"
  shows "\<exists>s'. createPolygon env gs s = Throw TypeError s' \<and> edges s' = edges s \<and>
           markers s' = markers s \<and> markersFn_calls s' = markersFn_calls s \<and>
           latLngs s' = latLngs s"
  using assms
  by (simp add: createPolygon_def destroyD3_def createD3_def attachEdges_def Let_def)

lemma createMouseUp_no_hull:
  assumes "3 \<le> length (latLngs s)" and "hullAlgorithm (options s) = None"
    and "map_obj s = Some mp" and "svg s = Some tr"
    and "render env (polygonLatLngs env (closed_trace s)) = Some ring"
  shows "\<exists>s'. createMouseUp env s = Return () s' \<and>
           p_parts (polygons s' (lastId s + 1)) = Some ring \<and>
           p_latlngs (polygons s' (lastId s + 1)) = map (containerPointToLatLng env) ring \<and>
           edges s' = edges s @ [lastId s + 2 ..< lastId s + 2 + length ring] \<and>
           (\<forall>k < length ring.
              markers s' (lastId s + 2 + k) =
                new_edge env (lastId s + 1) (length ring) ring k) \<and>
           latLngs s' = []"
proof -
  let ?s1 = "s\<lparr>creating := False, latLngs := closed_trace s\<rparr>"
  have m: "map_obj ?s1 = Some mp" "svg ?s1 = Some tr" using assms(3,4) by simp_all
  from createPolygon_attached[OF m assms(5)]
  obtain s2 where c: "createPolygon env (closed_trace s) ?s1 = Return (lastId s + 1) s2"
    and p: "polygons s2 = (polygons ?s1)(lastId ?s1 + 1 :=
              \<lparr>p_latlngs = map (containerPointToLatLng env) ring,
               p_parts = Some ring, p_container_removals = 0, p_redraws = 0,
               p_onclick = False\<rparr>)"
    and e: "edges s2 = edges ?s1 @ [lastId ?s1 + 2 ..< lastId ?s1 + 2 + length ring]"
    and k: "\<forall>k < length ring.
              markers s2 (lastId ?s1 + 2 + k) =
                new_edge env (lastId ?s1 + 1) (length ring) ring k"
    by auto
  from assms(1,2) c p e k show ?thesis
    by (simp add: createMouseUp_def applyHull_def Let_def closed_trace_def)
qed

lemma createMouseUp_no_ring:
  assumes "3 \<le> length (latLngs s)" and "hullAlgorithm (options s) = None"
    and "map_obj s = Some mp" and "svg s = Some tr"
    and "render env (polygonLatLngs env (closed_trace s)) = None"
  shows "\<exists>s'. createMouseUp env s = Throw TypeError s' \<and> edges s' = edges s \<and>
           markers s' = markers s \<and> markersFn_calls s' = markersFn_calls s"
proof -
  let ?s1 = "s\<lparr>creating := False, latLngs := closed_trace s\<rparr>"
  have m: "map_obj ?s1 = Some mp" "svg ?s1 = Some tr" using assms(3,4) by simp_all
  from createPolygon_no_ring[OF m assms(5)]
  obtain s2 where "createPolygon env (closed_trace s) ?s1 = Throw TypeError s2"
    "edges s2 = edges ?s1" "markers s2 = markers ?s1" "markersFn_calls s2 = markersFn_calls ?s1"
    by auto
  with assms(1,2) show ?thesis
    by (simp add: createMouseUp_def applyHull_def Let_def closed_trace_def)
qed

text \<open>What Leaflet makes of the two traces: of the closed trace of the square it drops the
  closing point and keeps the four corners; of the closed trace of five points it drops
  the closing point and the fourth point, which lies within the smooth factor of the
  segment between its neighbours.\<close>

lemma ring_box_trace:
  "render leaflet07 (polygonLatLngs leaflet07 (closed_trace box_trace)) =
     Some [(10, 10), (50, 10), (50, 50), (10, 50)]"
proof -
  have "simplify [(10, 10), (50, 10), (50, 50), (10, 50)] 5 =
        [(10, 10), (50, 10), (50, 50), (10, 50)]"
    by code_simp
  then show ?thesis
    by (simp add: leaflet07_def closed_trace_def box_trace_def initWithHoles_def)
qed

lemma ring_square_trace:
  "render leaflet07 (polygonLatLngs leaflet07 (closed_trace square_trace)) =
     Some [(10, 10), (50, 10), (50, 50), (10, 50)]"
proof -
  have "simplify [(10, 10), (50, 10), (50, 50), (12, 48), (10, 50)] 5 =
        [(10, 10), (50, 10), (50, 50), (10, 50)]"
    by code_simp
  then show ?thesis
    by (simp add: leaflet07_def closed_trace_def square_trace_def initWithHoles_def)
qed

text \<open>
  Claim C1, as amended. On an editor attached to a map, with three traced points or more
  and no hull algorithm, \<open>_createMouseUp\<close> builds the polygon from the traced points with
  the first of them once more at the end, one more than were traced. When Leaflet has a
  ring for that polygon, \<open>_createMouseUp\<close> returns normally, the coordinates the polygon
  then holds are the projections of the points of the ring, and for every point of the
  ring there is one new edge handle, with the projection of the point and its index. When
  Leaflet has no ring for it, \<open>_createMouseUp\<close> throws a TypeError, and no handle has
  been added and \<open>markersFn\<close> has not been called.
\<close>

theorem createMouseUp_closes_trace:
  assumes "3 \<le> length (latLngs s)" and "hullAlgorithm (options s) = None"
    and "map_obj s = Some mp" and "svg s = Some tr"
  shows "length (closed_trace s) = length (latLngs s) + 1 \<and>
         (case render env (polygonLatLngs env (closed_trace s)) of
            Some ring \<Rightarrow>
              \<exists>s'. createMouseUp env s = Return () s' \<and>
                p_parts (polygons s' (lastId s + 1)) = Some ring \<and>
                p_latlngs (polygons s' (lastId s + 1)) =
                  map (containerPointToLatLng env) ring \<and>
                edges s' = edges s @ [lastId s + 2 ..< lastId s + 2 + length ring] \<and>
                (\<forall>k < length ring.
                   markers s' (lastId s + 2 + k) =
                     new_edge env (lastId s + 1) (length ring) ring k) \<and>
                latLngs s' = []
          | None \<Rightarrow>
              \<exists>s'. createMouseUp env s = Throw TypeError s' \<and> edges s' = edges s \<and>
                markers s' = markers s \<and> markersFn_calls s' = markersFn_calls s)"
proof (cases "render env (polygonLatLngs env (closed_trace s))")
  case None
  from createMouseUp_no_ring[OF assms None] None show ?thesis
    by (simp add: closed_trace_def)
next
  case (Some ring)
  from createMouseUp_no_hull[OF assms Some] Some show ?thesis
    by (simp add: closed_trace_def)
qed

theorem createMouseUp_closes_trace_witness:
  "3 \<le> length (latLngs box_trace) \<and> hullAlgorithm (options box_trace) = None \<and>
   map_obj box_trace = Some map0 \<and> svg box_trace = Some [] \<and>
   closed_trace box_trace = [(10, 10), (50, 10), (50, 50), (10, 50), (10, 10)] \<and>
   (\<exists>s'. createMouseUp leaflet07 box_trace = Return () s' \<and>
      p_latlngs (polygons s' 1) = [(10, 10), (50, 10), (50, 50), (10, 50)] \<and>
      edges s' = [2, 3, 4, 5] \<and>
      markers s' 3 = handle (50, 10) 1 1 4) \<and>
   (\<exists>s'. createMouseUp leaflet07_away box_trace = Throw TypeError s' \<and> edges s' = [])"
proof -
  have h: "3 \<le> length (latLngs box_trace)" "hullAlgorithm (options box_trace) = None"
    "map_obj box_trace = Some map0" "svg box_trace = Some []"
    by (simp_all add: box_trace_def editor0_def)
  have c: "closed_trace box_trace = [(10, 10), (50, 10), (50, 50), (10, 50), (10, 10)]"
    by (simp add: closed_trace_def box_trace_def)
  have l: "lastId box_trace = 0" "edges box_trace = []"
    by (simp_all add: box_trace_def editor0_def)
  have u: "[2 ..< 6] = [2, 3, 4, 5::nat]" by (simp add: upt_rec)
  note t = createMouseUp_closes_trace[OF h, of leaflet07, THEN conjunct2,
      unfolded ring_box_trace option.case]
  let ?ring = "[(10, 10), (50, 10), (50, 50), (10, 50)] :: point list"
  from t obtain s' where r: "createMouseUp leaflet07 box_trace = Return () s'"
    and pl: "p_latlngs (polygons s' (lastId box_trace + 1)) =
       map (containerPointToLatLng leaflet07) ?ring"
    and e: "edges s' = edges box_trace @
       [lastId box_trace + 2 ..< lastId box_trace + 2 + length ?ring]"
    and k: "\<forall>k < length ?ring. markers s' (lastId box_trace + 2 + k) =
       new_edge leaflet07 (lastId box_trace + 1) (length ?ring) ?ring k"
    by blast
  have "(1::nat) < length ?ring" by simp
  with k have "markers s' (lastId box_trace + 2 + 1) =
       new_edge leaflet07 (lastId box_trace + 1) (length ?ring) ?ring 1"
    by blast
  then have k1: "markers s' 3 = handle (50, 10) 1 1 4"
    by (simp add: l leaflet07_def leaflet_exact_def new_edge_def handle_def eval_nat_numeral)
  from pl have pl1: "p_latlngs (polygons s' 1) = [(10, 10), (50, 10), (50, 50), (10, 50)]"
    by (simp add: l leaflet07_def leaflet_exact_def)
  from e have e1: "edges s' = [2, 3, 4, 5]" by (simp add: l u)
  from r pl1 e1 k1 have a: "createMouseUp leaflet07 box_trace = Return () s' \<and>
      p_latlngs (polygons s' 1) = [(10, 10), (50, 10), (50, 50), (10, 50)] \<and>
      edges s' = [2, 3, 4, 5] \<and>
      markers s' 3 = handle (50, 10) 1 1 4"
    by simp
  have "render leaflet07_away (polygonLatLngs leaflet07_away (closed_trace box_trace)) = None"
    by (simp add: leaflet07_away_def)
  with createMouseUp_closes_trace[OF h, of leaflet07_away]
  obtain s'' where b: "createMouseUp leaflet07_away box_trace = Throw TypeError s''"
    "edges s'' = edges box_trace"
    by auto
  from h c a b l show ?thesis by auto
qed

text \<open>
  Claim C1, as stated, fails: of the five traced points Leaflet drops one in simplifying,
  and it drops the closing point, so that the polygon holds four points where the closed
  trace has six.
\<close>

theorem createMouseUp_simplified_ring:
  "thrown (createMouseUp leaflet07 square_trace) = None \<and>
   p_latlngs (polygons (final (createMouseUp leaflet07 square_trace)) 1) =
     [(10, 10), (50, 10), (50, 50), (10, 50)] \<and>
   edges (final (createMouseUp leaflet07 square_trace)) = [2, 3, 4, 5] \<and>
   latLngs square_trace @ [latLngs square_trace ! 0] =
     [(10, 10), (50, 10), (50, 50), (12, 48), (10, 50), (10, 10)]"
proof -
  have h: "3 \<le> length (latLngs square_trace)" "hullAlgorithm (options square_trace) = None"
    "map_obj square_trace = Some map0" "svg square_trace = Some []"
    by (simp_all add: square_trace_def editor0_def)
  have l: "lastId square_trace = 0" "edges square_trace = []"
    by (simp_all add: square_trace_def editor0_def)
  have u: "[2 ..< 6] = [2, 3, 4, 5::nat]" by (simp add: upt_rec)
  from createMouseUp_no_hull[OF h ring_square_trace] show ?thesis
    by (auto simp: l u) (simp_all add: leaflet07_def leaflet_exact_def square_trace_def)
qed

section \<open>The handles of every shape stay together\<close>

lemma remdups_adj_append_fresh:
  "x \<notin> set xs \<Longrightarrow> remdups_adj (xs @ replicate n x) = remdups_adj xs @ (if n = 0 then [] else [x])"
proof (induction n)
  case 0
  then show ?case by simp
next
  case (Suc n)
  have "replicate (Suc n) x = replicate n x @ [x]" by (simp add: replicate_append_same)
  then have "remdups_adj (xs @ replicate (Suc n) x) = remdups_adj ((xs @ replicate n x) @ [x])"
    by simp
  also have "\<dots> = remdups_adj xs @ [x]"
    using Suc by (cases "n = 0") (auto simp: remdups_adj_snoc simp del: append_assoc replicate_Suc)
  finally show ?case by simp
qed

lemma contiguous_filter_ids:
  "distinct (remdups_adj xs) \<Longrightarrow> distinct (remdups_adj (filter (\<lambda>x. x \<noteq> p) xs))"
proof (induction xs rule: rev_induct)
  case Nil
  then show ?case by simp
next
  case (snoc x xs)
  from snoc.prems have d: "distinct (remdups_adj xs)"
    by (auto simp: remdups_adj_snoc split: if_splits)
  show ?case
  proof (cases "x = p")
    case True
    with snoc.IH[OF d] show ?thesis by simp
  next
    case False
    let ?f = "filter (\<lambda>x. x \<noteq> p) xs"
    show ?thesis
    proof (cases "xs = [] \<or> last xs \<noteq> x")
      case True
      with snoc.prems have "x \<notin> set xs" by (auto simp: remdups_adj_snoc)
      then have "x \<notin> set ?f" by simp
      with snoc.IH[OF d] False show ?thesis by (auto simp: remdups_adj_snoc)
    next
      case False
      then have "xs \<noteq> []" "last xs = x" by auto
      then obtain ys where "xs = ys @ [x]" by (cases xs rule: rev_cases) auto
      with \<open>x \<noteq> p\<close> have "?f \<noteq> []" "last ?f = x" by simp_all
      with snoc.IH[OF d] \<open>x \<noteq> p\<close> show ?thesis by (simp add: remdups_adj_snoc)
    qed
  qed
qed

lemma tidy_no_edges: "edges s = [] \<Longrightarrow> tidy s"
  by (simp add: tidy_def live_edges_def contiguous_def index_ordered_def)

lemma remove_edges_kept_store:
  "e_polygon (ms r) \<noteq> p \<Longrightarrow> snd (remove_edges p es ms) r = ms r"
  by (simp add: remove_edges_store)

lemma live_edges_destroyPolygon:
  "live_edges (snd (destroyPolygon p s)) = filter (\<lambda>e. e_polygon e \<noteq> p) (live_edges s)"
  by (simp add: live_edges_def edges_destroyPolygon markers_destroyPolygon filter_map o_def
      remove_edges_kept_store cong: map_cong)

lemma lastId_destroyPolygon [simp]: "lastId (snd (destroyPolygon p s)) = lastId s"
  by (simp add: destroyPolygon_def Let_def notifyBoundaries_def case_prod_beta)

lemma handles_of_filter: "handles_of i (filter Q es) = filter Q (handles_of i es)"
  by (auto simp: handles_of_def intro: filter_cong)

lemma ids_filter_polygon:
  "\<forall>e \<in> set es. e_polygon e = e_polygonId e \<Longrightarrow>
   map e_polygonId (filter (\<lambda>e. e_polygon e \<noteq> p) es) =
     filter (\<lambda>x. x \<noteq> p) (map e_polygonId es)"
  by (induction es) auto

text \<open>\<open>destroyPolygon\<close> keeps the handles of the other polygons as they are.\<close>

lemma tidy_destroyPolygon:
  assumes "tidy s"
  shows "tidy (snd (destroyPolygon p s))"
proof -
  let ?s' = "snd (destroyPolygon p s)"
  let ?es = "live_edges s"
  from assms have c: "contiguous ?es" and o: "index_ordered ?es"
    and a: "\<forall>r \<in> set (edges s). r \<le> lastId s \<and> e_polygonId (markers s r) \<le> lastId s \<and>
        e_polygon (markers s r) = e_polygonId (markers s r)"
    by (simp_all add: tidy_def)
  from a have same: "\<forall>e \<in> set ?es. e_polygon e = e_polygonId e"
    by (auto simp: live_edges_def)
  have le: "live_edges ?s' = filter (\<lambda>e. e_polygon e \<noteq> p) ?es"
    by (rule live_edges_destroyPolygon)
  have "map e_polygonId (filter (\<lambda>e. e_polygon e \<noteq> p) ?es) =
        filter (\<lambda>x. x \<noteq> p) (map e_polygonId ?es)"
    using same by (rule ids_filter_polygon)
  with c have c': "contiguous (live_edges ?s')"
    by (simp add: le contiguous_def contiguous_filter_ids)
  have o': "index_ordered (live_edges ?s')"
    unfolding le index_ordered_def
  proof
    fix i assume "i \<in> set (map e_polygonId (filter (\<lambda>e. e_polygon e \<noteq> p) ?es))"
    then have "i \<in> set (map e_polygonId ?es)" by auto
    with o have "sorted (map e_index (handles_of i ?es))" by (auto simp: index_ordered_def)
    then show "sorted (map e_index (handles_of i (filter (\<lambda>e. e_polygon e \<noteq> p) ?es)))"
      by (simp add: handles_of_filter sorted_filter)
  qed
  have a': "\<forall>r \<in> set (edges ?s'). r \<le> lastId ?s' \<and> e_polygonId (markers ?s' r) \<le> lastId ?s' \<and>
        e_polygon (markers ?s' r) = e_polygonId (markers ?s' r)"
    using a by (simp add: edges_destroyPolygon markers_destroyPolygon remove_edges_store)
  from c' o' a' show ?thesis by (simp add: tidy_def)
qed

lemma upt_shift: "[a ..< a + n] = map (\<lambda>k. a + k) [0..<n]"
  by (induction n) simp_all

lemma live_edges_attach_loop:
  assumes "\<forall>r \<in> set (edges s). r \<le> lastId s"
  shows "live_edges (attach_loop env p n pts 0 s) =
           live_edges s @ map (new_edge env p n pts) [0..<length pts]"
proof -
  let ?s' = "attach_loop env p n pts 0 s"
  have old: "map (markers ?s') (edges s) = map (markers s) (edges s)"
    using assms by (simp add: attach_loop_old_markers)
  have "[Suc (lastId s) ..< Suc (lastId s) + length pts] =
        map (\<lambda>k. Suc (lastId s) + k) [0..<length pts]"
    by (rule upt_shift)
  then have "map (markers ?s') [Suc (lastId s) ..< Suc (lastId s) + length pts] =
        map (\<lambda>k. markers ?s' (Suc (lastId s) + k)) [0..<length pts]"
    by (simp add: o_def)
  also have "\<dots> = map (new_edge env p n pts) [0..<length pts]"
  proof (rule map_cong)
    fix k assume "k \<in> set [0..<length pts]"
    then have "k < length pts" by simp
    then show "markers ?s' (Suc (lastId s) + k) = new_edge env p n pts k"
      by (simp add: new_edge_def attach_loop_new_markers)
  qed simp
  finally show ?thesis
    by (simp add: live_edges_def attach_loop_edges old)
qed

text \<open>\<open>attachEdges\<close> appends the handles of a new polygon, in the order of the ring.\<close>

lemma tidy_attach_loop:
  assumes "tidy s" and "p \<le> lastId s"
    and "\<forall>r \<in> set (edges s). e_polygonId (markers s r) \<noteq> p"
  shows "tidy (attach_loop env p n pts 0 s)"
proof -
  let ?s' = "attach_loop env p n pts 0 s"
  let ?es = "live_edges s"
  let ?new = "map (new_edge env p n pts) [0..<length pts]"
  from assms(1) have c: "contiguous ?es" and o: "index_ordered ?es"
    and a: "\<forall>r \<in> set (edges s). r \<le> lastId s \<and> e_polygonId (markers s r) \<le> lastId s \<and>
        e_polygon (markers s r) = e_polygonId (markers s r)"
    by (simp_all add: tidy_def)
  from a have le: "live_edges ?s' = ?es @ ?new"
    by (simp add: live_edges_attach_loop)
  from assms(3) have fresh: "p \<notin> set (map e_polygonId ?es)"
    by (auto simp: live_edges_def)
  have idn: "map e_polygonId ?new = replicate (length pts) p"
    by (simp add: new_edge_def o_def map_replicate_const)
  have "map e_polygonId (live_edges ?s') = map e_polygonId ?es @ replicate (length pts) p"
    using idn by (simp add: le)
  with c fresh have c': "contiguous (live_edges ?s')"
    by (simp add: contiguous_def remdups_adj_append_fresh)
  have hp: "handles_of p (?es @ ?new) = ?new"
    using handles_of_absent[OF fresh] by (simp add: handles_of_def new_edge_def)
  have ho: "handles_of i (?es @ ?new) = handles_of i ?es" if "i \<noteq> p" for i
    using that by (simp add: handles_of_def new_edge_def)
  have sn: "sorted (map e_index ?new)"
    by (simp add: new_edge_def o_def)
  have o': "index_ordered (live_edges ?s')"
    unfolding le index_ordered_def
  proof
    fix i assume i: "i \<in> set (map e_polygonId (?es @ ?new))"
    show "sorted (map e_index (handles_of i (?es @ ?new)))"
    proof (cases "i = p")
      case True
      with hp sn show ?thesis by simp
    next
      case False
      have "set (map e_polygonId ?new) \<subseteq> {p}" by (auto simp: new_edge_def)
      with i False have "i \<in> set (map e_polygonId ?es)" by auto
      with o have "sorted (map e_index (handles_of i ?es))" by (auto simp: index_ordered_def)
      with False show ?thesis by (simp add: ho)
    qed
  qed
  have a': "\<forall>r \<in> set (edges ?s'). r \<le> lastId ?s' \<and> e_polygonId (markers ?s' r) \<le> lastId ?s' \<and>
        e_polygon (markers ?s' r) = e_polygonId (markers ?s' r)"
  proof
    fix r assume "r \<in> set (edges ?s')"
    then have "r \<in> set (edges s) \<or> r \<in> set (map (\<lambda>k. Suc (lastId s) + k) [0..<length pts])"
      by (simp only: attach_loop_edges upt_shift set_append Un_iff)
    then consider "r \<in> set (edges s)" | k where "k < length pts" "r = Suc (lastId s) + k"
      by auto
    then show "r \<le> lastId ?s' \<and> e_polygonId (markers ?s' r) \<le> lastId ?s' \<and>
        e_polygon (markers ?s' r) = e_polygonId (markers ?s' r)"
    proof cases
      case 1
      with a have "r \<le> lastId s" "e_polygonId (markers s r) \<le> lastId s"
        "e_polygon (markers s r) = e_polygonId (markers s r)" by simp_all
      then show ?thesis by (simp add: attach_loop_old_markers)
    next
      case 2
      with assms(2) show ?thesis by (simp add: attach_loop_new_markers)
    qed
  qed
  from c' o' a' show ?thesis by (simp add: tidy_def)
qed

lemma filter_fields_cong:
  "\<forall>r \<in> set rs. f (m' r) = f (m r) \<and> g (m' r) = g (m r) \<Longrightarrow>
   map g (filter (\<lambda>e. f e = i) (map m' rs)) = map g (filter (\<lambda>e. f e = i) (map m rs))"
  by (induction rs) auto

lemma tidy_cong:
  fixes s s' :: "'g freedraw"
  assumes "tidy s" and "edges s' = edges s" and "lastId s \<le> lastId s'"
    and "\<forall>r \<in> set (edges s). e_polygonId (markers s' r) = e_polygonId (markers s r) \<and>
           e_polygon (markers s' r) = e_polygon (markers s r) \<and>
           e_index (markers s' r) = e_index (markers s r)"
  shows "tidy s'"
proof -
  have ids: "map e_polygonId (live_edges s') = map e_polygonId (live_edges s)"
    using assms(2,4) by (simp add: live_edges_def)
  have idx: "map e_index (handles_of i (live_edges s')) = map e_index (handles_of i (live_edges s))"
    for i
    using assms(4) filter_fields_cong[of "edges s" e_polygonId "markers s'" "markers s" e_index i]
    by (simp add: live_edges_def handles_of_def assms(2))
  from assms(1) have "contiguous (live_edges s')" "index_ordered (live_edges s')"
    by (simp_all add: tidy_def contiguous_def index_ordered_def ids idx)
  moreover from assms have "\<forall>r \<in> set (edges s'). r \<le> lastId s' \<and>
      e_polygonId (markers s' r) \<le> lastId s' \<and>
      e_polygon (markers s' r) = e_polygonId (markers s' r)"
    by (fastforce simp: tidy_def)
  ultimately show ?thesis by (simp add: tidy_def)
qed

lemma tidy_notifyBoundaries: "tidy s \<Longrightarrow> tidy (notifyBoundaries s)"
  by (erule tidy_cong) (simp_all add: notifyBoundaries_def)

lemma tidy_setMode: "tidy s \<Longrightarrow> tidy (setMode m s)"
  by (erule tidy_cong) simp_all

lemma tidy_updatePolygonEdge: "tidy s \<Longrightarrow> tidy (final (updatePolygonEdge env edge x y s))"
  by (erule tidy_cong) (simp_all add: updatePolygonEdge_def Let_def split: option.splits)

lemma tidy_setMarkers: "tidy s \<Longrightarrow> tidy (final (setMarkers ms divIcon s))"
  by (erule tidy_cong)
     (auto simp: setMarkers_def Let_def split: option.splits list.splits prod.splits)

lemma tidy_destroy_all:
  "tidy s \<Longrightarrow>
   tidy (foldl (\<lambda>s edge. snd (destroyPolygon (e_polygon (markers s edge)) s)) s es)"
  by (induction es arbitrary: s) (simp_all add: tidy_destroyPolygon)

lemma tidy_clearPolygons: "tidy s \<Longrightarrow> tidy (clearPolygons s)"
  by (simp add: clearPolygons_def tidy_notifyBoundaries tidy_destroy_all)

lemma tidy_onClick: "tidy s \<Longrightarrow> tidy (onClick polygon s)"
  by (simp add: onClick_def tidy_destroyPolygon)

lemma tidy_irrelevant [simp]:
  "tidy (s\<lparr>svg := a\<rparr>) = tidy s" "tidy (s\<lparr>polygons := b\<rparr>) = tidy s"
  "tidy (s\<lparr>map_obj := c\<rparr>) = tidy s" "tidy (s\<lparr>creating := d\<rparr>) = tidy s"
  "tidy (s\<lparr>latLngs := e\<rparr>) = tidy s" "tidy (s\<lparr>markersFn_calls := f\<rparr>) = tidy s"
  "tidy (s\<lparr>mode := g\<rparr>) = tidy s" "tidy (s\<lparr>boundaryUpdateRequired := h\<rparr>) = tidy s"
  "tidy (s\<lparr>movingEdge := i\<rparr>) = tidy s" "tidy (s\<lparr>options := j\<rparr>) = tidy s"
  "tidy (s\<lparr>markerLayer := k\<rparr>) = tidy s"
  by (simp_all add: tidy_def live_edges_def)

lemma tidy_lastId: "tidy s \<Longrightarrow> lastId s \<le> n \<Longrightarrow> tidy (s\<lparr>lastId := n\<rparr>)"
  by (erule tidy_cong) simp_all

lemma tidy_createPolygon:
  fixes s :: "'g freedraw"
  assumes "tidy s"
  shows "tidy (final (createPolygon env gs s))"
proof (cases "svg s")
  case None
  with assms show ?thesis by (simp add: createPolygon_def destroyD3_def)
next
  case (Some tr)
  show ?thesis
  proof (cases "map_obj s")
    case None
    with assms Some show ?thesis by (simp add: createPolygon_def destroyD3_def createD3_def)
  next
    case (Some mp)
    have t: "tidy (attach_loop env (Suc (lastId s)) n pts 0 s1)"
      if "tidy s1" and "lastId s1 = Suc (lastId s)" and "edges s1 = edges s"
        and "markers s1 = markers s" for s1 :: "'g freedraw" and n pts
    proof (rule tidy_attach_loop[OF that(1)])
      show "Suc (lastId s) \<le> lastId s1" using that(2) by simp
      from assms show "\<forall>r \<in> set (edges s1). e_polygonId (markers s1 r) \<noteq> Suc (lastId s)"
        unfolding that(3,4) by (fastforce simp: tidy_def)
    qed
    from assms Some \<open>svg s = Some tr\<close> show ?thesis
      by (cases "render env (polygonLatLngs env gs)")
         (simp_all add: createPolygon_def destroyD3_def createD3_def attachEdges_def Let_def
          tidy_notifyBoundaries t tidy_lastId)
  qed
qed

lemma tidy_createMouseUp:
  assumes "tidy s"
  shows "tidy (final (createMouseUp env s))"
proof -
  have c: "tidy (final (createPolygon env gs (s\<lparr>creating := False, latLngs := l\<rparr>)))" for gs l
    using assms by (intro tidy_createPolygon) simp
  have r: "tidy s'"
    if "createPolygon env gs (s\<lparr>creating := False, latLngs := l\<rparr>) = Return p s'" for gs l p s'
    using c[of gs l] that by simp
  have t: "tidy s'"
    if "createPolygon env gs (s\<lparr>creating := False, latLngs := l\<rparr>) = Throw e s'" for gs l e s'
    using c[of gs l] that by simp
  show ?thesis
    using assms
    by (auto simp: createMouseUp_def Let_def tidy_setMode
        split: sum.splits prod.splits outcome.splits option.splits dest: r t)
qed

lemma tidy_onMouseUpAndMouseLeave: "tidy s \<Longrightarrow> tidy (final (onMouseUpAndMouseLeave env s))"
  by (simp add: onMouseUpAndMouseLeave_def Let_def tidy_createMouseUp tidy_notifyBoundaries
      split: option.splits)

text \<open>Every state the editor reaches is tidy: there the handles of every shape stand
  together and in the order of their vertex indices, as the amended claim C2 asks.\<close>

lemma reachable_tidy: "reachable env s \<Longrightarrow> tidy s"
proof (induction rule: reachable.induct)
  case (by_other s s')
  from by_other.IH show ?case
    by (rule tidy_cong) (simp_all add: by_other.hyps)
qed (simp_all add: tidy_no_edges tidy_setMode tidy_notifyBoundaries tidy_destroyPolygon
    tidy_clearPolygons tidy_onClick tidy_setMarkers tidy_createPolygon tidy_createMouseUp
    tidy_onMouseUpAndMouseLeave tidy_updatePolygonEdge)

lemma reachable_handles_in_order:
  "reachable env s \<Longrightarrow> contiguous (live_edges s) \<and> index_ordered (live_edges s)"
  using reachable_tidy[of env s] by (simp add: tidy_def)

end
